theory Spec2Isabelle
  imports Complex_Main "HOL-Library.Log_Nat" "HOL-Library.Word"
begin

section \<open>JavaScript values that the code throws and inspects\<close>

text \<open>
  Strings are byte lists; \<open>str_includes\<close> is \<^verbatim>\<open>String.prototype.includes\<close> and
  \<open>toLowerCase\<close> lowers the ASCII letters (the patterns the code searches for are ASCII).
\<close>

fun startsWith :: "string \<Rightarrow> string \<Rightarrow> bool" where
  "startsWith s [] = True"
| "startsWith [] (c # cs) = False"
| "startsWith (x # xs) (c # cs) = (x = c \<and> startsWith xs cs)"

fun str_includes :: "string \<Rightarrow> string \<Rightarrow> bool" where
  "str_includes [] sub = (sub = [])"
| "str_includes (x # xs) sub = (startsWith (x # xs) sub \<or> str_includes xs sub)"

definition lower_char :: "char \<Rightarrow> char" where
  "lower_char c =
     (case map_of (zip ''ABCDEFGHIJKLMNOPQRSTUVWXYZ'' ''abcdefghijklmnopqrstuvwxyz'') c of
        None \<Rightarrow> c | Some l \<Rightarrow> l)"

definition toLowerCase :: "string \<Rightarrow> string" where
  "toLowerCase s = map lower_char s"

text \<open>The application-wide error codes (\<^verbatim>\<open>ErrorCode\<close>).\<close>

datatype ErrorCode =
    UNAUTHENTICATED
  | SESSION_EXPIRED
  | INSUFFICIENT_CREDITS
  | NETWORK_ERROR
  | TIMEOUT
  | PROCESSING_FAILED
  | EXPORT_FAILED
  | CANCELLED
  | UNKNOWN

text \<open>
  A thrown value. The error classes of the repository and of the platform that the code
  tests with \<^verbatim>\<open>instanceof\<close> are constructors; \<open>Error\<close> is any other instance of
  \<^verbatim>\<open>Error\<close>, \<open>NonError\<close> a value that is not an \<^verbatim>\<open>Error\<close> at all (a string,
  \<^verbatim>\<open>undefined\<close>, a plain object), kept as its \<^verbatim>\<open>String(value)\<close>.
\<close>

datatype js_value =
    DOMException string string \<comment> \<open>message, name\<close>
  | TypeError string
  | ApiError string int "string option" \<comment> \<open>message, status, code\<close>
  | TimeoutError string
  | ImageProcessingError string
  | AppError string ErrorCode string bool \<comment> \<open>message, code, userMessage, recoverable\<close>
  | Error string
  | NonError string

text \<open>\<^verbatim>\<open>error instanceof Error\<close>: every class above extends \<^verbatim>\<open>Error\<close>.\<close>

fun instanceofError :: "js_value \<Rightarrow> bool" where
  "instanceofError (NonError v) = False"
| "instanceofError e = True"

fun message :: "js_value \<Rightarrow> string" where
  "message (DOMException m n) = m"
| "message (TypeError m) = m"
| "message (ApiError m st c) = m"
| "message (TimeoutError m) = m"
| "message (ImageProcessingError m) = m"
| "message (AppError m c u r) = m"
| "message (Error m) = m"
| "message (NonError v) = v"

fun isAbortError :: "js_value \<Rightarrow> bool" where
  "isAbortError (DOMException m n) = (n = ''AbortError'')"
| "isAbortError e = False"

fun isTypeError :: "js_value \<Rightarrow> bool" where
  "isTypeError (TypeError m) = True"
| "isTypeError e = False"

abbreviation AbortError :: "string \<Rightarrow> js_value" where
  "AbortError m \<equiv> DOMException m ''AbortError''"

section \<open>The default retry predicate\<close>

definition isRetryableError :: "js_value \<Rightarrow> bool" where
  "isRetryableError error =
     (if isAbortError error then False
      else if isTypeError error \<and> str_includes (message error) ''fetch'' then True
      else if instanceofError error then
        (let msg = toLowerCase (message error) in
         if str_includes msg ''network'' \<or> str_includes msg ''connection'' then True
         else if str_includes msg ''401'' \<or> str_includes msg ''unauthorized'' then False
         else if str_includes msg ''400'' \<or> str_includes msg ''403''
                 \<or> str_includes msg ''404'' then False
         else if str_includes msg ''500'' \<or> str_includes msg ''502'' \<or> str_includes msg ''503''
                 \<or> str_includes msg ''504'' then True
         else if str_includes msg ''timeout'' then True
         else False)
      else False)"

section \<open>The error classifier\<close>

record ErrorDetails =
  code :: ErrorCode
  userMessage :: string
  recoverable :: bool

text \<open>The \<^verbatim>\<open>instanceof\<close> tests on the repository's own classes, and the
  getters of \<^verbatim>\<open>ApiError\<close> on the status it carries.\<close>

fun isApiError :: "js_value \<Rightarrow> bool" where
  "isApiError (ApiError m st c) = True"
| "isApiError e = False"

fun isTimeoutError :: "js_value \<Rightarrow> bool" where
  "isTimeoutError (TimeoutError m) = True"
| "isTimeoutError e = False"

fun isImageProcessingError :: "js_value \<Rightarrow> bool" where
  "isImageProcessingError (ImageProcessingError m) = True"
| "isImageProcessingError e = False"

fun status :: "js_value \<Rightarrow> int option" where
  "status (ApiError m st c) = Some st"
| "status e = None"

definition isAuthError_getter :: "js_value \<Rightarrow> bool" where
  "isAuthError_getter e = (status e = Some 401)"

definition isCreditsError_getter :: "js_value \<Rightarrow> bool" where
  "isCreditsError_getter e = (status e = Some 402)"

definition isNetworkError_getter :: "js_value \<Rightarrow> bool" where
  "isNetworkError_getter e = (status e = Some 0)"

definition mapErrorToDetails :: "js_value \<Rightarrow> ErrorDetails" where
  "mapErrorToDetails error =
     (if isAbortError error
      then \<lparr>code = CANCELLED, userMessage = ''Operation was cancelled'', recoverable = True\<rparr>
      else if isApiError error then
        (if isAuthError_getter error
         then \<lparr>code = SESSION_EXPIRED,
               userMessage = ''Your session has expired. Please sign in again.'',
               recoverable = True\<rparr>
         else if isCreditsError_getter error
         then \<lparr>code = INSUFFICIENT_CREDITS,
               userMessage = ''Insufficient credits. Please upgrade your plan.'',
               recoverable = True\<rparr>
         else if isNetworkError_getter error
         then \<lparr>code = NETWORK_ERROR,
               userMessage = ''Network error. Please check your connection and try again.'',
               recoverable = True\<rparr>
         else \<lparr>code = PROCESSING_FAILED, userMessage = message error, recoverable = True\<rparr>)
      else if isTimeoutError error
      then \<lparr>code = TIMEOUT, userMessage = ''The operation timed out. Please try again.'',
            recoverable = True\<rparr>
      else if isImageProcessingError error
      then \<lparr>code = PROCESSING_FAILED,
            userMessage = ''Failed to process image. Please try again.'',
            recoverable = True\<rparr>
      else if instanceofError error then
        (if str_includes (message error) ''network'' \<or> str_includes (message error) ''fetch''
         then \<lparr>code = NETWORK_ERROR,
               userMessage = ''Network error. Please check your connection and try again.'',
               recoverable = True\<rparr>
         else \<lparr>code = UNKNOWN, userMessage = message error, recoverable = True\<rparr>)
      else \<lparr>code = UNKNOWN,
            userMessage = ''An unexpected error occurred. Please try again.'',
            recoverable = True\<rparr>)"

definition isRecoverableError :: "js_value \<Rightarrow> bool" where
  "isRecoverableError error = recoverable (mapErrorToDetails error)"

section \<open>Retry with exponential backoff\<close>

text \<open>
  Asynchronous code runs in a world \<open>'w\<close> that every awaited operation may change. An
  operation returns the value it resolves with (\<open>Inr\<close>) or the value it rejects with
  (\<open>Inl\<close>), and the world after it. An \<^verbatim>\<open>AbortSignal\<close> is read off the world:
  \<open>aborted signal w\<close> is \<^verbatim>\<open>signal?.aborted\<close>, false when no signal was given.
\<close>

type_synonym ('a, 'w) async = "'w \<Rightarrow> (js_value + 'a) \<times> 'w"

type_synonym 'w AbortSignal = "'w \<Rightarrow> bool"

definition aborted :: "'w AbortSignal option \<Rightarrow> 'w \<Rightarrow> bool" where
  "aborted signal w = (case signal of None \<Rightarrow> False | Some s \<Rightarrow> s w)"

text \<open>
  The platform: \<open>Math_random\<close> draws a number of \<open>[0, 1)\<close>; \<open>timer ms w\<close> is the
  world at the moment a sleep of \<open>ms\<close> milliseconds settles, which is when its timer fires
  or when the signal it listens to aborts, whichever comes first.
\<close>

record 'w platform =
  Math_random :: "'w \<Rightarrow> real \<times> 'w"
  timer :: "real \<Rightarrow> 'w \<Rightarrow> 'w"

record 'w RetryOptions =
  maxAttempts :: "int option"
  baseDelay :: "real option"
  maxDelay :: "real option"
  multiplier :: "real option"
  jitter :: "bool option"
  isRetryable :: "(js_value \<Rightarrow> bool) option"
  onRetry :: "(nat \<Rightarrow> js_value \<Rightarrow> real \<Rightarrow> 'w \<Rightarrow> 'w) option"
  signal :: "'w AbortSignal option"

text \<open>
  The options with their defaults, as the destructuring in \<^verbatim>\<open>withRetry\<close> reads them.
  The callbacks \<open>isRetryable\<close> and \<open>onRetry\<close> are taken to return normally:
  \<open>isRetryable\<close> is a predicate, \<open>onRetry\<close> an effect on the world.
\<close>

definition opt_maxAttempts :: "('w, 'x) RetryOptions_scheme \<Rightarrow> int" where
  "opt_maxAttempts options = (case maxAttempts options of None \<Rightarrow> 3 | Some n \<Rightarrow> n)"

definition opt_baseDelay :: "('w, 'x) RetryOptions_scheme \<Rightarrow> real" where
  "opt_baseDelay options = (case baseDelay options of None \<Rightarrow> 1000 | Some d \<Rightarrow> d)"

definition opt_maxDelay :: "('w, 'x) RetryOptions_scheme \<Rightarrow> real" where
  "opt_maxDelay options = (case maxDelay options of None \<Rightarrow> 30000 | Some d \<Rightarrow> d)"

definition opt_multiplier :: "('w, 'x) RetryOptions_scheme \<Rightarrow> real" where
  "opt_multiplier options = (case multiplier options of None \<Rightarrow> 2 | Some m \<Rightarrow> m)"

definition opt_jitter :: "('w, 'x) RetryOptions_scheme \<Rightarrow> bool" where
  "opt_jitter options = (case jitter options of None \<Rightarrow> True | Some j \<Rightarrow> j)"

definition opt_isRetryable :: "('w, 'x) RetryOptions_scheme \<Rightarrow> js_value \<Rightarrow> bool" where
  "opt_isRetryable options = (case isRetryable options of None \<Rightarrow> isRetryableError | Some p \<Rightarrow> p)"

definition call_onRetry ::
  "('w, 'x) RetryOptions_scheme \<Rightarrow> nat \<Rightarrow> js_value \<Rightarrow> real \<Rightarrow> 'w \<Rightarrow> 'w" where
  "call_onRetry options attempt error delay w =
     (case onRetry options of None \<Rightarrow> w | Some f \<Rightarrow> f attempt error delay w)"

text \<open>\<^verbatim>\<open>Math.round\<close>: the nearest integer, a half rounded up.\<close>

definition Math_round :: "real \<Rightarrow> int" where
  "Math_round x = \<lfloor>x + 1 / 2\<rfloor>"

text \<open>
  \<^verbatim>\<open>calculateDelay\<close>. Numbers are reals; \<open>attempt\<close> is the loop counter of
  \<^verbatim>\<open>withRetry\<close>, which starts at 1, so the exponent \<open>attempt - 1\<close> is a natural number.
\<close>

definition calculateDelay ::
  "('w, 'y) platform_scheme \<Rightarrow> nat \<Rightarrow> real \<Rightarrow> real \<Rightarrow> real \<Rightarrow> bool \<Rightarrow> 'w \<Rightarrow> real \<times> 'w" where
  "calculateDelay pf attempt base_delay max_delay mul jit w =
     (let delay = base_delay * mul ^ (attempt - 1);
          delay = min delay max_delay
      in if jit
         then (case Math_random pf w of
                 (r, w') \<Rightarrow>
                   (let jitterFactor = 0.75 + r * 0.5
                    in (real_of_int (Math_round (delay * jitterFactor)), w')))
         else (delay, w))"

definition sleep ::
  "('w, 'y) platform_scheme \<Rightarrow> real \<Rightarrow> 'w AbortSignal option \<Rightarrow> (unit, 'w) async" where
  "sleep pf ms sig w =
     (if aborted sig w then (Inl (AbortError ''Aborted''), w)
      else (let w' = timer pf ms w
            in if aborted sig w' then (Inl (AbortError ''Aborted''), w')
               else (Inr (), w')))"

text \<open>
  The loop of \<^verbatim>\<open>withRetry\<close> from the iteration \<open>attempt\<close> on; \<open>lastError\<close> is the
  variable of that name, thrown after the loop.
\<close>

function withRetry_loop ::
  "'w platform \<Rightarrow> ('a, 'w) async \<Rightarrow> 'w RetryOptions \<Rightarrow> nat \<Rightarrow> js_value \<Rightarrow> ('a, 'w) async" where
  "withRetry_loop pf fn options attempt lastError w =
     (if int attempt \<le> opt_maxAttempts options then
        (if aborted (signal options) w then (Inl (AbortError ''Aborted''), w)
         else
           (case fn w of
              (Inr v, w1) \<Rightarrow> (Inr v, w1)
            | (Inl error, w1) \<Rightarrow>
                (if int attempt \<ge> opt_maxAttempts options then (Inl error, w1)
                 else if \<not> opt_isRetryable options error then (Inl error, w1)
                 else
                   (case calculateDelay pf attempt (opt_baseDelay options)
                           (opt_maxDelay options) (opt_multiplier options)
                           (opt_jitter options) w1 of
                      (delay, w2) \<Rightarrow>
                        (case sleep pf delay (signal options)
                                (call_onRetry options attempt error delay w2) of
                           (Inl e, w3) \<Rightarrow> (Inl e, w3)
                         | (Inr u, w3) \<Rightarrow>
                             withRetry_loop pf fn options (attempt + 1) error w3)))))
      else (Inl lastError, w))"
  by pat_completeness auto
termination
  by (relation "measure (\<lambda>(pf, fn, options, attempt, lastError, w).
        nat (opt_maxAttempts options + 1 - int attempt))") auto

declare withRetry_loop.simps [simp del]

definition withRetry :: "'w platform \<Rightarrow> ('a, 'w) async \<Rightarrow> 'w RetryOptions \<Rightarrow> ('a, 'w) async" where
  "withRetry pf fn options w = withRetry_loop pf fn options 1 (NonError ''undefined'') w"

section \<open>Timeouts\<close>

text \<open>The decimal digits of a number, as a template literal prints a whole number.\<close>

definition digit_char :: "nat \<Rightarrow> char" where
  "digit_char n = ''0123456789'' ! n"

function show_nat :: "nat \<Rightarrow> string" where
  "show_nat n = (if n < 10 then [digit_char n] else show_nat (n div 10) @ [digit_char (n mod 10)])"
  by pat_completeness auto
termination
  by (relation "measure (\<lambda>n. n)") auto

declare show_nat.simps [simp del]

text \<open>
  A promise that is already under way: \<open>settles_at w\<close> is the time, in milliseconds from
  now, at which it settles, and \<open>settle\<close> what it settles with.
\<close>

record ('a, 'w) pending =
  settles_at :: "'w \<Rightarrow> real"
  settle :: "('a, 'w) async"

text \<open>
  \<^verbatim>\<open>withTimeout\<close>: the promise races a timer of \<open>timeoutMs\<close> milliseconds, a whole
  number. When the timer fires first, \<open>onTimeout\<close> runs and the result is a
  \<open>TimeoutError\<close> whose message names the timeout.
\<close>

definition withTimeout ::
  "('w, 'y) platform_scheme \<Rightarrow> ('a, 'w) pending \<Rightarrow> nat \<Rightarrow> ('w \<Rightarrow> 'w) option \<Rightarrow> ('a, 'w) async" where
  "withTimeout pf promise timeoutMs onTimeout w =
     (if settles_at promise w < real timeoutMs then settle promise w
      else (Inl (TimeoutError (''Operation timed out after '' @ show_nat timeoutMs @ ''ms'')),
            (case onTimeout of None \<Rightarrow> timer pf (real timeoutMs) w
             | Some f \<Rightarrow> f (timer pf (real timeoutMs) w))))"

text \<open>\<^verbatim>\<open>config.penpot.messageTimeout\<close>, the timeout of an export.\<close>

definition messageTimeout :: nat where
  "messageTimeout = 10000"

section \<open>The API service\<close>

type_synonym bytes = "8 word list"

record RemoveBgResult =
  output_url :: string
  credits_used :: nat

record RemoveBgResponse =
  result :: RemoveBgResult

datatype BatchStatus = batch_success | batch_failure

record BatchResult =
  batch_status :: BatchStatus
  batch_output_url :: "string option"
  batch_credits_used :: "nat option"
  batch_error :: "string option"

record BatchResponse =
  results :: "BatchResult list"

text \<open>
  What \<^verbatim>\<open>fetch\<close> is given and what it resolves with. The request's own timeout
  controller is local to the call and is seen by \<^verbatim>\<open>fetch\<close> alone, so the combined
  signal is handed over as its two parts: the caller's signal and the time after which the
  request's own controller aborts. \<^verbatim>\<open>fetch\<close> rejects with an \<open>AbortError\<close> when
  either fires, and with some other value when the network fails.
\<close>

record 'w RequestInit =
  req_method :: "string option"
  req_body :: "(string \<times> bytes \<times> string) list" \<comment> \<open>form data: field, blob, filename\<close>
  req_headers :: "(string \<times> string) list"
  req_signal :: "'w AbortSignal option"
  req_timeout :: real

record ('r, 'w) Response =
  ok :: bool
  resp_status :: int
  statusText :: string
  json :: "('r, 'w) async"
  arrayBuffer :: "(bytes, 'w) async"

type_synonym ('r, 'w) fetch = "string \<Rightarrow> 'w RequestInit \<Rightarrow> (('r, 'w) Response, 'w) async"

record api_config =
  baseUrl :: string
  timeout :: real

text \<open>\<^verbatim>\<open>config.api\<close>: the base URL depends on the build, the timeout is 30000 ms.\<close>

definition config_api :: "bool \<Rightarrow> api_config" where
  "config_api isDev =
     \<lparr>baseUrl = (if isDev then ''/api'' else ''https://api.maskr.io''), timeout = 30000\<rparr>"

definition createApiError :: "int \<Rightarrow> string \<Rightarrow> js_value" where
  "createApiError st status_text =
     (if st = 401 then ApiError ''Session expired. Please sign in again.'' 401 (Some ''SESSION_EXPIRED'')
      else if st = 402
      then ApiError ''Insufficient credits. Please upgrade your plan.'' 402
             (Some ''INSUFFICIENT_CREDITS'')
      else if st = 429
      then ApiError ''Too many requests. Please try again later.'' 429 (Some ''RATE_LIMITED'')
      else ApiError (''Request failed: '' @ status_text) st (Some ''REQUEST_FAILED''))"

text \<open>
  \<^verbatim>\<open>request\<close>. \<open>getToken\<close> reads the token off the world; \<^verbatim>\<open>!token\<close> holds of
  \<^verbatim>\<open>null\<close> and of the empty string. An error raised inside the \<^verbatim>\<open>try\<close> goes
  through the \<^verbatim>\<open>catch\<close>; the promise of \<^verbatim>\<open>response.json()\<close> is returned without
  being awaited there, so its rejection is not caught.
\<close>

definition request ::
  "api_config \<Rightarrow> ('w \<Rightarrow> string option) \<Rightarrow> ('r, 'w) fetch \<Rightarrow> string \<Rightarrow> string option \<Rightarrow>
   (string \<times> bytes \<times> string) list \<Rightarrow> 'w AbortSignal option \<Rightarrow> ('r, 'w) async" where
  "request cfg getToken fetch endpoint method body sig w =
     (case getToken w of
        None \<Rightarrow> (Inl (ApiError ''Not authenticated'' 401 (Some ''UNAUTHENTICATED'')), w)
      | Some token \<Rightarrow>
          (if token = [] then (Inl (ApiError ''Not authenticated'' 401 (Some ''UNAUTHENTICATED'')), w)
           else
             (case fetch (baseUrl cfg @ endpoint)
                     \<lparr>req_method = method, req_body = body,
                        req_headers = [(''Authorization'', ''Bearer '' @ token)],
                        req_signal = sig, req_timeout = timeout cfg\<rparr> w of
                (Inr response, w1) \<Rightarrow>
                  (if \<not> ok response
                   then (Inl (createApiError (resp_status response) (statusText response)), w1)
                   else json response w1)
              | (Inl error, w1) \<Rightarrow>
                  (if isApiError error then (Inl error, w1)
                   else if isAbortError error then (Inl error, w1)
                   else (Inl (ApiError ''Network error. Please check your connection.'' 0
                                (Some ''NETWORK_ERROR'')), w1)))))"

record 'w ApiService =
  removeBackground :: "bytes \<Rightarrow> string \<Rightarrow> 'w AbortSignal option \<Rightarrow> (RemoveBgResponse, 'w) async"
  removeBackgroundBatch ::
    "(bytes \<times> string) list \<Rightarrow> 'w AbortSignal option \<Rightarrow> (BatchResponse, 'w) async"
  downloadMask :: "string \<Rightarrow> 'w AbortSignal option \<Rightarrow> (bytes, 'w) async"

definition api_downloadMask ::
  "api_config \<Rightarrow> ('r, 'w) fetch \<Rightarrow> string \<Rightarrow> 'w AbortSignal option \<Rightarrow> (bytes, 'w) async" where
  "api_downloadMask cfg fetch url sig w =
     (case fetch url \<lparr>req_method = None, req_body = [], req_headers = [],
                       req_signal = sig, req_timeout = timeout cfg\<rparr> w of
        (Inr response, w1) \<Rightarrow>
          (if \<not> ok response
           then (Inl (ApiError ''Failed to download mask'' (resp_status response)
                        (Some ''DOWNLOAD_ERROR'')), w1)
           else
             (case arrayBuffer response w1 of
                (Inr buffer, w2) \<Rightarrow> (Inr buffer, w2)
              | (Inl error, w2) \<Rightarrow>
                  (if isApiError error then (Inl error, w2)
                   else if isAbortError error then (Inl error, w2)
                   else (Inl (ApiError ''Failed to download mask'' 0 (Some ''NETWORK_ERROR'')), w2))))
      | (Inl error, w1) \<Rightarrow>
          (if isApiError error then (Inl error, w1)
           else if isAbortError error then (Inl error, w1)
           else (Inl (ApiError ''Failed to download mask'' 0 (Some ''NETWORK_ERROR'')), w1)))"

text \<open>
  \<^verbatim>\<open>createApiService\<close>. The two authenticated calls go through \<open>request\<close>; the
  download of a mask needs no token. The one \<^verbatim>\<open>fetch\<close> of the platform serves every
  response type; an argument of a HOL function has one type, so it is handed over once for
  the responses of the single-image endpoint and of the download, and once for those of the
  batch endpoint.
\<close>

definition createApiService ::
  "api_config \<Rightarrow> ('w \<Rightarrow> string option) \<Rightarrow> (RemoveBgResponse, 'w) fetch \<Rightarrow>
   (BatchResponse, 'w) fetch \<Rightarrow> 'w ApiService" where
  "createApiService cfg getToken fetch fetch_batch =
     \<lparr>removeBackground = (\<lambda>imageData filename sig.
          request cfg getToken fetch ''/v1/remove-bg?output=mask'' (Some ''POST'')
            [(''file'', imageData, filename)] sig),
      removeBackgroundBatch = (\<lambda>images sig.
          request cfg getToken fetch_batch ''/v1/remove-bg/batch?output=mask'' (Some ''POST'')
            (map (\<lambda>image. (''files'', fst image, snd image)) images) sig),
      downloadMask = api_downloadMask cfg fetch\<rparr>"

section \<open>The background removal pipeline\<close>

record PenpotImageInfo =
  image_id :: string
  image_name :: string

datatype ProcessingStage =
  stage_exporting | stage_processing | stage_downloading | stage_applying | stage_complete

record ProcessingProgress =
  current :: nat
  total :: nat
  status_text :: string
  imageId :: string
  stage :: ProcessingStage

record ProcessingResult =
  result_imageId :: string
  result_name :: string
  resultData :: bytes

text \<open>
  The async generator \<^verbatim>\<open>process\<close>, one call of \<^verbatim>\<open>next()\<close> at a time. The
  generator is suspended before the iteration \<open>i\<close> (\<open>At i\<close>) or has finished. A call runs
  the body up to the next \<^verbatim>\<open>yield\<close>, to the end of the loop, or to the first error.
\<close>

datatype gen_state = At nat | Finished

datatype 'a gen_step = Yielded 'a | Returned | Threw js_value

definition cancelled_error :: js_value where
  "cancelled_error = AbortError ''Processing cancelled''"

definition process_next ::
  "('w, 'x) ApiService_scheme \<Rightarrow> (bytes \<Rightarrow> bytes \<Rightarrow> (bytes, 'w) async) \<Rightarrow> PenpotImageInfo list \<Rightarrow>
   (string \<Rightarrow> (bytes, 'w) async) \<Rightarrow> (ProcessingProgress \<Rightarrow> 'w \<Rightarrow> 'w) \<Rightarrow>
   'w AbortSignal option \<Rightarrow> gen_state \<Rightarrow> 'w \<Rightarrow> (ProcessingResult gen_step \<times> gen_state) \<times> 'w" where
  "process_next api applyMaskToImage images exportImage onProgress sig st w =
     (case st of
        Finished \<Rightarrow> ((Returned, Finished), w)
      | At i \<Rightarrow>
         (if \<not> i < length images then ((Returned, Finished), w)
          else if aborted sig w then ((Threw cancelled_error, Finished), w)
          else
           (let image = images ! i;
                w1 = onProgress \<lparr>current = i, total = length images,
                        status_text = ''Exporting '' @ image_name image @ ''...'',
                        imageId = image_id image, stage = stage_exporting\<rparr> w
            in case exportImage (image_id image) w1 of
                 (Inl e, w2) \<Rightarrow> ((Threw e, Finished), w2)
               | (Inr imageData, w2) \<Rightarrow>
                  (if aborted sig w2 then ((Threw cancelled_error, Finished), w2)
                   else
                    (let w3 = onProgress \<lparr>current = i, total = length images,
                                status_text = ''Processing '' @ image_name image @ ''...'',
                                imageId = image_id image, stage = stage_processing\<rparr> w2
                     in case removeBackground api imageData (image_name image @ ''.png'') sig w3 of
                          (Inl e, w4) \<Rightarrow> ((Threw e, Finished), w4)
                        | (Inr response, w4) \<Rightarrow>
                           (if aborted sig w4 then ((Threw cancelled_error, Finished), w4)
                            else
                             (let w5 = onProgress \<lparr>current = i, total = length images,
                                         status_text = ''Downloading mask...'',
                                         imageId = image_id image, stage = stage_downloading\<rparr> w4
                              in case downloadMask api (output_url (result response)) sig w5 of
                                   (Inl e, w6) \<Rightarrow> ((Threw e, Finished), w6)
                                 | (Inr maskData, w6) \<Rightarrow>
                                    (if aborted sig w6 then ((Threw cancelled_error, Finished), w6)
                                     else
                                      (let w7 = onProgress \<lparr>current = i, total = length images,
                                                  status_text = ''Applying mask...'',
                                                  imageId = image_id image,
                                                  stage = stage_applying\<rparr> w6
                                       in case applyMaskToImage imageData maskData w7 of
                                            (Inl e, w8) \<Rightarrow> ((Threw e, Finished), w8)
                                          | (Inr data, w8) \<Rightarrow>
                                             ((Yielded \<lparr>result_imageId = image_id image,
                                                 result_name = image_name image @ '' - No BG'',
                                                 resultData = data\<rparr>, At (i + 1)),
                                              onProgress \<lparr>current = i + 1, total = length images,
                                                status_text = ''Completed '' @ image_name image,
                                                imageId = image_id image,
                                                stage = stage_complete\<rparr> w8))))))))))"

section \<open>The cleanup registry\<close>

text \<open>
  A cleanup function acts on the world and either returns (\<open>None\<close>) or throws. The
  registry is the array \<^verbatim>\<open>cleanupFns\<close>; \<open>console_error\<close> is the effect of
  \<^verbatim>\<open>console.error('Cleanup function failed:', error)\<close>. A cleanup function has no
  handle on the registry, so it cannot register further functions while the loop runs.
\<close>

type_synonym 'w cleanup_fn = "'w \<Rightarrow> js_value option \<times> 'w"

definition createCleanupRegistry :: "'w cleanup_fn list" where
  "createCleanupRegistry = []"

definition register :: "'w cleanup_fn list \<Rightarrow> 'w cleanup_fn \<Rightarrow> 'w cleanup_fn list" where
  "register cleanupFns fn = cleanupFns @ [fn]"

function cleanup ::
  "(js_value \<Rightarrow> 'w \<Rightarrow> 'w) \<Rightarrow> 'w cleanup_fn list \<Rightarrow> 'w \<Rightarrow> 'w cleanup_fn list \<times> 'w" where
  "cleanup console_error cleanupFns w =
     (if length cleanupFns > 0 then
        (let fn = last cleanupFns; popped = butlast cleanupFns
         in case fn w of
              (None, w1) \<Rightarrow> cleanup console_error popped w1
            | (Some error, w1) \<Rightarrow> cleanup console_error popped (console_error error w1))
      else (cleanupFns, w))"
  by pat_completeness auto
termination
  by (relation "measure (\<lambda>(console_error, cleanupFns, w). length cleanupFns)") auto

declare cleanup.simps [simp del]

definition size_registry :: "'w cleanup_fn list \<Rightarrow> nat" where
  "size_registry cleanupFns = length cleanupFns"

text \<open>A world that records which cleanup functions ran and what was logged.\<close>

record cleanup_probe =
  invoked :: "string list"
  logged :: "js_value list"

definition tracked :: "string \<times> js_value option \<Rightarrow> cleanup_probe cleanup_fn" where
  "tracked f w = (snd f, w\<lparr>invoked := invoked w @ [fst f]\<rparr>)"

definition log_error :: "js_value \<Rightarrow> cleanup_probe \<Rightarrow> cleanup_probe" where
  "log_error error w = w\<lparr>logged := logged w @ [error]\<rparr>"

definition thrown_by :: "(string \<times> js_value option) list \<Rightarrow> js_value list" where
  "thrown_by fs = concat (map (\<lambda>f. case snd f of None \<Rightarrow> [] | Some e \<Rightarrow> [e]) fs)"

section \<open>Double-precision numbers\<close>

text \<open>
  A JavaScript number is an IEEE 754 double. A finite double is the real number it stands
  for, and an arithmetic operation returns the exact result rounded to the nearest double,
  a tie going to the even significand. \<open>binade x\<close> is the exponent \<open>e\<close> with
  \<open>2 ^ e \<le> x < 2 ^ (e + 1)\<close> for a positive \<open>x\<close>. The doubles around \<open>x\<close> are the
  multiples of \<open>quantum x\<close>, which is \<open>2 ^ (e - 52)\<close> for a normal number and
  \<open>2 ^ -1074\<close> below \<open>2 ^ -1022\<close>, where the numbers are subnormal. The infinities and
  \<^verbatim>\<open>NaN\<close> are not numbers of the model: a result of magnitude \<open>2 ^ 1024\<close> or more,
  which the machine replaces by an infinity, is kept as a real number here.
\<close>

definition round_even :: "real \<Rightarrow> int" where
  "round_even x =
     (if x - of_int \<lfloor>x\<rfloor> < 1 / 2 then \<lfloor>x\<rfloor>
      else if x - of_int \<lfloor>x\<rfloor> > 1 / 2 then \<lfloor>x\<rfloor> + 1
      else if even \<lfloor>x\<rfloor> then \<lfloor>x\<rfloor> else \<lfloor>x\<rfloor> + 1)"

definition binade :: "real \<Rightarrow> int" where
  "binade x = (if 1 \<le> x then bitlen \<lfloor>x\<rfloor> - 1 else - bitlen (\<lceil>1 / x\<rceil> - 1))"

definition pow2 :: "int \<Rightarrow> real" where
  "pow2 e = (if 0 \<le> e then 2 ^ nat e else 1 / 2 ^ nat (- e))"

definition quantum :: "real \<Rightarrow> real" where
  "quantum x = pow2 (max (binade \<bar>x\<bar>) (- 1022) - 52)"

definition to_double :: "real \<Rightarrow> real" where
  "to_double x =
     (if x = 0 then 0
      else sgn x * of_int (round_even (\<bar>x\<bar> / quantum x)) * quantum x)"

definition double_add :: "real \<Rightarrow> real \<Rightarrow> real" where
  "double_add x y = to_double (x + y)"

definition double_mul :: "real \<Rightarrow> real \<Rightarrow> real" where
  "double_mul x y = to_double (x * y)"

definition double_div :: "real \<Rightarrow> real \<Rightarrow> real" where
  "double_div x y = to_double (x / y)"

text \<open>
  One rounding changes a number by at most the factor \<open>1 \<plusminus> 2 ^ -53\<close> and, where the
  result is subnormal, by at most \<open>2 ^ -1075\<close>; \<open>relerr k m x y\<close> says that \<open>y\<close> is
  \<open>x\<close> up to \<open>k\<close> such factors and \<open>m\<close> times that absolute error.
\<close>

definition ulp_lo :: real where
  "ulp_lo = 1 - 1 / 2 ^ 53"

definition ulp_hi :: real where
  "ulp_hi = 1 + 1 / 2 ^ 53"

definition half_denorm :: real where
  "half_denorm = pow2 (- 1075)"

definition relerr :: "nat \<Rightarrow> real \<Rightarrow> real \<Rightarrow> real \<Rightarrow> bool" where
  "relerr k m x y =
     (ulp_lo ^ k * x - m * half_denorm \<le> y \<and> y \<le> ulp_hi ^ k * x + m * half_denorm)"

section \<open>The processing store\<close>

datatype job_status = pending | processing | completed | failed | cancelled

datatype store_status = idle | store_processing | store_cancelled

record ProcessingJob =
  job_id :: string
  job_name :: string
  job_status :: job_status
  progress :: real
  job_stage :: string
  job_error :: "string option"
  startedAt :: "int option"
  completedAt :: "int option"

record ProcessingHistoryItem =
  hist_id :: string
  hist_name :: string
  hist_status :: job_status
  duration :: int
  timestamp :: int
  hist_error :: "string option"

text \<open>
  The state of the store. An \<^verbatim>\<open>AbortController\<close> is an object that the store creates
  and hands out as a signal, so controllers are numbered in the order of their creation and
  \<open>aborted_signals\<close> holds the numbers of those that were aborted; \<open>abortController\<close>
  is the reference the store keeps. \<^verbatim>\<open>Date.now()\<close> is a clock given from outside, its
  \<open>n\<close>-th reading being \<open>clock n\<close>; the state counts the readings.
\<close>

record store =
  jobs :: "ProcessingJob list"
  history :: "ProcessingHistoryItem list"
  abortController :: "nat option"
  status_of_store :: store_status
  aborted_signals :: "nat set"
  controllers_made :: nat
  clock_reads :: nat

definition initial_store :: store where
  "initial_store =
     \<lparr>jobs = [], history = [], abortController = None, status_of_store = idle,
      aborted_signals = {}, controllers_made = 0, clock_reads = 0\<rparr>"

definition isProcessing :: "store \<Rightarrow> bool" where
  "isProcessing s = (status_of_store s = store_processing)"

definition currentJob :: "store \<Rightarrow> ProcessingJob option" where
  "currentJob s = find (\<lambda>job. job_status job = processing) (jobs s)"

definition pendingCount :: "store \<Rightarrow> nat" where
  "pendingCount s = length (filter (\<lambda>job. job_status job = pending) (jobs s))"

definition completedCount :: "store \<Rightarrow> nat" where
  "completedCount s = length (filter (\<lambda>job. job_status job = completed) (jobs s))"

text \<open>
  \<^verbatim>\<open>overallProgress\<close>. The counts are whole numbers, which are doubles as they are;
  the division, the sum, the second division and the product are each rounded to a double,
  in the order of the source expression
  \<^verbatim>\<open>((completed + current / 100) / total) * 100\<close>.
\<close>

definition overallProgress :: "store \<Rightarrow> int" where
  "overallProgress s =
     (if length (jobs s) = 0 then 0
      else
        (let total_jobs = length (jobs s);
             completed_jobs = completedCount s;
             current_progress = (case currentJob s of None \<Rightarrow> 0 | Some job \<Rightarrow> progress job)
         in Math_round
              (double_mul
                 (double_div (double_add (real completed_jobs) (double_div current_progress 100))
                    (real total_jobs))
                 100)))"

definition canCancel :: "store \<Rightarrow> bool" where
  "canCancel s = (isProcessing s \<and> abortController s \<noteq> None)"

definition signal_aborted :: "store \<Rightarrow> nat \<Rightarrow> bool" where
  "signal_aborted s sig = (sig \<in> aborted_signals s)"

text \<open>\<^verbatim>\<open>jobs.find(...)\<close> followed by a mutation of the job found: the first match changes.\<close>

fun update_first :: "('a \<Rightarrow> bool) \<Rightarrow> ('a \<Rightarrow> 'a) \<Rightarrow> 'a list \<Rightarrow> 'a list" where
  "update_first P f [] = []"
| "update_first P f (x # xs) = (if P x then f x # xs else x # update_first P f xs)"

definition startBatch :: "PenpotImageInfo list \<Rightarrow> store \<Rightarrow> nat \<times> store" where
  "startBatch items s =
     (controllers_made s,
      s\<lparr>jobs := map (\<lambda>item. \<lparr>job_id = image_id item, job_name = image_name item,
                                job_status = pending, progress = 0, job_stage = ''Queued'',
                                job_error = None, startedAt = None, completedAt = None\<rparr>) items,
        abortController := Some (controllers_made s),
        controllers_made := controllers_made s + 1,
        status_of_store := store_processing\<rparr>)"

definition updateJobProgress :: "(nat \<Rightarrow> int) \<Rightarrow> string \<Rightarrow> real \<Rightarrow> string \<Rightarrow> store \<Rightarrow> store" where
  "updateJobProgress clock i p stg s =
     (case find (\<lambda>j. job_id j = i) (jobs s) of
        None \<Rightarrow> s
      | Some job \<Rightarrow>
          (if job_status job = pending
           then s\<lparr>jobs := update_first (\<lambda>j. job_id j = i)
                            (\<lambda>j. j\<lparr>job_status := processing,
                                     startedAt := Some (clock (clock_reads s)),
                                     progress := p, job_stage := stg\<rparr>) (jobs s),
                   clock_reads := clock_reads s + 1\<rparr>
           else s\<lparr>jobs := update_first (\<lambda>j. job_id j = i)
                            (\<lambda>j. j\<lparr>progress := p, job_stage := stg\<rparr>) (jobs s)\<rparr>))"

definition elapsed :: "int option \<Rightarrow> int \<Rightarrow> int" where
  "elapsed started finished_at = finished_at - (case started of None \<Rightarrow> finished_at | Some t \<Rightarrow> t)"

definition completeJob :: "(nat \<Rightarrow> int) \<Rightarrow> string \<Rightarrow> store \<Rightarrow> store" where
  "completeJob clock i s =
     (case find (\<lambda>j. job_id j = i) (jobs s) of
        None \<Rightarrow> s
      | Some job \<Rightarrow>
          (let now = clock (clock_reads s)
           in s\<lparr>jobs := update_first (\<lambda>j. job_id j = i)
                           (\<lambda>j. j\<lparr>job_status := completed, progress := 100,
                                    job_stage := ''Done'', completedAt := Some now\<rparr>) (jobs s),
                 history := \<lparr>hist_id = job_id job, hist_name = job_name job,
                              hist_status = completed,
                              duration = elapsed (startedAt job) now,
                              timestamp = now, hist_error = None\<rparr> # history s,
                 clock_reads := clock_reads s + 1\<rparr>))"

definition failJob :: "(nat \<Rightarrow> int) \<Rightarrow> string \<Rightarrow> string \<Rightarrow> store \<Rightarrow> store" where
  "failJob clock i err s =
     (case find (\<lambda>j. job_id j = i) (jobs s) of
        None \<Rightarrow> s
      | Some job \<Rightarrow>
          (let now = clock (clock_reads s)
           in s\<lparr>jobs := update_first (\<lambda>j. job_id j = i)
                           (\<lambda>j. j\<lparr>job_status := failed, job_stage := ''Failed'',
                                    job_error := Some err, completedAt := Some now\<rparr>) (jobs s),
                 history := \<lparr>hist_id = job_id job, hist_name = job_name job,
                              hist_status = failed,
                              duration = elapsed (startedAt job) now,
                              timestamp = now, hist_error = Some err\<rparr> # history s,
                 clock_reads := clock_reads s + 1\<rparr>))"

text \<open>
  The loop of \<^verbatim>\<open>cancel\<close> over the jobs, in their order: \<open>n\<close> counts the clock
  readings and \<open>h\<close> is the history, to whose front each entry is added.
\<close>

fun cancel_jobs ::
  "(nat \<Rightarrow> int) \<Rightarrow> nat \<Rightarrow> ProcessingJob list \<Rightarrow> ProcessingHistoryItem list \<Rightarrow>
   ProcessingJob list \<times> ProcessingHistoryItem list \<times> nat" where
  "cancel_jobs clock n [] h = ([], h, n)"
| "cancel_jobs clock n (job # rest) h =
     (if job_status job = pending \<or> job_status job = processing
      then (case cancel_jobs clock (n + 1) rest
                   (\<lparr>hist_id = job_id job, hist_name = job_name job, hist_status = cancelled,
                     duration = elapsed (startedAt job) (clock n),
                     timestamp = clock n, hist_error = None\<rparr> # h) of
              (js, h', n') \<Rightarrow>
                (job\<lparr>job_status := cancelled, job_stage := ''Cancelled'',
                     completedAt := Some (clock n)\<rparr> # js, h', n'))
      else (case cancel_jobs clock n rest h of (js, h', n') \<Rightarrow> (job # js, h', n')))"

definition cancel :: "(nat \<Rightarrow> int) \<Rightarrow> store \<Rightarrow> store" where
  "cancel clock s =
     (case abortController s of
        None \<Rightarrow> s
      | Some controller \<Rightarrow>
          (case cancel_jobs clock (clock_reads s) (jobs s) (history s) of
             (js, h, n) \<Rightarrow>
               s\<lparr>aborted_signals := insert controller (aborted_signals s),
                 status_of_store := store_cancelled,
                 jobs := js, history := h, clock_reads := n\<rparr>))"

definition finish :: "store \<Rightarrow> store" where
  "finish s = s\<lparr>abortController := None, status_of_store := idle\<rparr>"

definition reset :: "store \<Rightarrow> store" where
  "reset s = s\<lparr>jobs := [], abortController := None, status_of_store := idle\<rparr>"

definition clearHistory :: "store \<Rightarrow> store" where
  "clearHistory s = s\<lparr>history := []\<rparr>"

subsection \<open>Runs of the store\<close>

text \<open>The operations of the store as data, and a sequence of them run from a state.\<close>

datatype store_op =
    StartBatch "PenpotImageInfo list"
  | UpdateJobProgress string real string
  | CompleteJob string
  | FailJob string string
  | Cancel
  | Finish
  | Reset

fun apply_op :: "(nat \<Rightarrow> int) \<Rightarrow> store \<Rightarrow> store_op \<Rightarrow> store" where
  "apply_op clock s (StartBatch items) = snd (startBatch items s)"
| "apply_op clock s (UpdateJobProgress i p stg) = updateJobProgress clock i p stg s"
| "apply_op clock s (CompleteJob i) = completeJob clock i s"
| "apply_op clock s (FailJob i err) = failJob clock i err s"
| "apply_op clock s Cancel = cancel clock s"
| "apply_op clock s Finish = finish s"
| "apply_op clock s Reset = reset s"

definition run_ops :: "(nat \<Rightarrow> int) \<Rightarrow> store \<Rightarrow> store_op list \<Rightarrow> store" where
  "run_ops clock s ops = foldl (apply_op clock) s ops"

definition terminal :: "job_status \<Rightarrow> bool" where
  "terminal st = (st = completed \<or> st = failed \<or> st = cancelled)"

text \<open>
  What follows describes runs of the store. \<open>cancelled_entries\<close> are the history
  entries that the loop of \<open>cancel\<close> creates, in the order of the jobs.
\<close>

fun cancelled_entries ::
  "(nat \<Rightarrow> int) \<Rightarrow> nat \<Rightarrow> ProcessingJob list \<Rightarrow> ProcessingHistoryItem list" where
  "cancelled_entries clock n [] = []"
| "cancelled_entries clock n (job # rest) =
     (if job_status job = pending \<or> job_status job = processing
      then \<lparr>hist_id = job_id job, hist_name = job_name job, hist_status = cancelled,
            duration = elapsed (startedAt job) (clock n),
            timestamp = clock n, hist_error = None\<rparr> # cancelled_entries clock (n + 1) rest
      else cancelled_entries clock n rest)"

definition cancel_status :: "job_status \<Rightarrow> job_status" where
  "cancel_status st = (if st = pending \<or> st = processing then cancelled else st)"

definition hist_key :: "ProcessingHistoryItem \<Rightarrow> string \<times> job_status" where
  "hist_key h = (hist_id h, hist_status h)"

text \<open>
  \<open>activeJobProgress\<close> is the progress that \<open>overallProgress\<close> reads: that of the
  first job in status \<open>processing\<close>, 0 when there is none. The aggregate progress in the
  words of the specification, over the real numbers, is \<open>exact_progress\<close> before
  rounding and \<open>aggregate_progress\<close> rounded.
\<close>

definition activeJobProgress :: "store \<Rightarrow> real" where
  "activeJobProgress s =
     (case find (\<lambda>job. job_status job = processing) (jobs s) of
        None \<Rightarrow> 0 | Some job \<Rightarrow> progress job)"

definition exact_progress :: "nat \<Rightarrow> real \<Rightarrow> nat \<Rightarrow> real" where
  "exact_progress completed_jobs active_progress total_jobs =
     100 * (real completed_jobs + active_progress / 100) / real total_jobs"

definition aggregate_progress :: "nat \<Rightarrow> real \<Rightarrow> nat \<Rightarrow> int" where
  "aggregate_progress completed_jobs active_progress total_jobs =
     Math_round (100 * (real completed_jobs + active_progress / 100) / real total_jobs)"

text \<open>
  The progress that the root component hands to \<open>updateJobProgress\<close> on a progress
  event of the pipeline: \<^verbatim>\<open>Math.round((progress.current / progress.total) * 100)\<close>.
\<close>

definition progress_percent :: "nat \<Rightarrow> nat \<Rightarrow> int" where
  "progress_percent current_item total_items =
     Math_round (double_mul (double_div (real current_item) (real total_items)) 100)"

definition two_items :: "PenpotImageInfo list" where
  "two_items = [\<lparr>image_id = ''1'', image_name = ''Test 1''\<rparr>,
                \<lparr>image_id = ''2'', image_name = ''Test 2''\<rparr>]"

definition six_items :: "PenpotImageInfo list" where
  "six_items = [\<lparr>image_id = ''1'', image_name = ''Test 1''\<rparr>,
                \<lparr>image_id = ''2'', image_name = ''Test 2''\<rparr>,
                \<lparr>image_id = ''3'', image_name = ''Test 3''\<rparr>,
                \<lparr>image_id = ''4'', image_name = ''Test 4''\<rparr>,
                \<lparr>image_id = ''5'', image_name = ''Test 5''\<rparr>,
                \<lparr>image_id = ''6'', image_name = ''Test 6''\<rparr>]"

text \<open>
  Runs of the root component on the store. In \<open>six_started\<close> the first of six images is
  done and the pipeline has reported the export of the second. In \<open>cancel_during_apply\<close>
  the user cancels while the mask of the first of two images is being applied: the handler
  calls \<open>cancel\<close> and \<open>finish\<close>; the pipeline, which checks the signal before a stage
  but not after the last one, then reports the item complete and yields it, and the loop of
  the component calls \<open>completeJob\<close>.
\<close>

definition six_started :: "store_op list" where
  "six_started =
     [StartBatch six_items,
      UpdateJobProgress ''1'' (real_of_int (progress_percent 0 6)) ''Exporting Test 1...'',
      UpdateJobProgress ''1'' (real_of_int (progress_percent 0 6)) ''Processing Test 1...'',
      UpdateJobProgress ''1'' (real_of_int (progress_percent 0 6)) ''Downloading mask...'',
      UpdateJobProgress ''1'' (real_of_int (progress_percent 0 6)) ''Applying mask...'',
      UpdateJobProgress ''1'' (real_of_int (progress_percent 1 6)) ''Completed Test 1'',
      CompleteJob ''1'',
      UpdateJobProgress ''2'' (real_of_int (progress_percent 1 6)) ''Exporting Test 2...'']"

definition cancel_during_apply :: "store_op list" where
  "cancel_during_apply =
     [StartBatch two_items,
      UpdateJobProgress ''1'' (real_of_int (progress_percent 0 2)) ''Exporting Test 1...'',
      UpdateJobProgress ''1'' (real_of_int (progress_percent 0 2)) ''Processing Test 1...'',
      UpdateJobProgress ''1'' (real_of_int (progress_percent 0 2)) ''Downloading mask...'',
      UpdateJobProgress ''1'' (real_of_int (progress_percent 0 2)) ''Applying mask...'',
      Cancel, Finish]"

definition yield_after_cancel :: "store_op list" where
  "yield_after_cancel =
     [UpdateJobProgress ''1'' (real_of_int (progress_percent 1 2)) ''Completed Test 1'',
      CompleteJob ''1'']"

text \<open>The scenario of the store's test: the first of two items done, the second half done.\<close>

definition half_done :: "store_op list" where
  "half_done = [StartBatch two_items, CompleteJob ''1'', UpdateJobProgress ''2'' 50 ''Half done'']"

section \<open>A probe world for the retry executor and the pipeline\<close>

text \<open>
  A world that records what a run did: how often the operation was invoked, the sleeps
  that were started, the calls of \<open>onRetry\<close>, and the flag of the abort signal. The
  operation is scripted, its \<open>k\<close>-th invocation (from 0) settling as \<open>script k\<close>.
\<close>

record probe =
  calls :: nat
  slept :: "real list"
  retried :: "(nat \<times> js_value \<times> real) list"
  abort_flag :: bool

definition scripted :: "(nat \<Rightarrow> js_value + 'a) \<Rightarrow> ('a, probe) async" where
  "scripted script w = (script (calls w), w\<lparr>calls := calls w + 1\<rparr>)"

definition log_retry :: "nat \<Rightarrow> js_value \<Rightarrow> real \<Rightarrow> probe \<Rightarrow> probe" where
  "log_retry attempt error delay w = w\<lparr>retried := retried w @ [(attempt, error, delay)]\<rparr>"

definition probe_platform :: "real \<Rightarrow> probe platform" where
  "probe_platform r =
     \<lparr>Math_random = (\<lambda>w. (r, w)), timer = (\<lambda>ms w. w\<lparr>slept := slept w @ [ms]\<rparr>)\<rparr>"

definition fresh :: probe where
  "fresh = \<lparr>calls = 0, slept = [], retried = [], abort_flag = False\<rparr>"

text \<open>
  The delay that \<open>calculateDelay\<close> gives in the probe world, where \<open>Math_random\<close>
  draws \<open>r\<close>; \<open>backoff\<close> is the formula of the specification for the wait after the
  attempt \<open>k\<close>.
\<close>

definition backoff :: "real \<Rightarrow> real \<Rightarrow> real \<Rightarrow> nat \<Rightarrow> real" where
  "backoff b M m k = min (b * m ^ (k - 1)) M"

definition probe_delay :: "(probe, 'x) RetryOptions_scheme \<Rightarrow> real \<Rightarrow> nat \<Rightarrow> real" where
  "probe_delay options r k =
     (if opt_jitter options
      then real_of_int (Math_round (backoff (opt_baseDelay options) (opt_maxDelay options)
                                      (opt_multiplier options) k * (0.75 + r * 0.5)))
      else backoff (opt_baseDelay options) (opt_maxDelay options) (opt_multiplier options) k)"

text \<open>Scripts: an operation that always rejects, and one that rejects once and then resolves.\<close>

definition always_fails :: "(nat \<Rightarrow> js_value) \<Rightarrow> nat \<Rightarrow> js_value + 'a" where
  "always_fails errs k = Inl (errs k)"

definition fails_once :: "js_value \<Rightarrow> 'a \<Rightarrow> nat \<Rightarrow> js_value + 'a" where
  "fails_once e v k = (if k = 0 then Inl e else Inr v)"

definition numbered_failure :: "nat \<Rightarrow> js_value" where
  "numbered_failure k = ApiError ''Network error. Please check your connection.'' (int k) None"


text \<open>An export that is still pending when the timer of \<open>withTimeout\<close> fires.\<close>

definition never_settles :: "(bytes, probe) pending" where
  "never_settles = \<lparr>settles_at = (\<lambda>w. 20000), settle = (\<lambda>w. (Inr [], w))\<rparr>"

section \<open>Mock collaborators of the pipeline\<close>

text \<open>
  Collaborators on the probe world, for running the pipeline: an export and a mask
  application that succeed, progress that is dropped, an API whose
  \<^verbatim>\<open>removeBackground\<close> follows a script and counts its invocations and whose
  \<^verbatim>\<open>downloadMask\<close> settles as given, and a
  \<^verbatim>\<open>fetch\<close> that follows a script and counts the requests.
\<close>

definition mock_export :: "string \<Rightarrow> (bytes, probe) async" where
  "mock_export i w = (Inr [1, 2, 3], w)"

definition mock_apply :: "bytes \<Rightarrow> bytes \<Rightarrow> (bytes, probe) async" where
  "mock_apply originalData maskData w = (Inr (originalData @ maskData), w)"

definition no_progress :: "ProcessingProgress \<Rightarrow> probe \<Rightarrow> probe" where
  "no_progress p w = w"

definition mock_api ::
  "(nat \<Rightarrow> js_value + RemoveBgResponse) \<Rightarrow> js_value + bytes \<Rightarrow> probe ApiService" where
  "mock_api script download =
     \<lparr>removeBackground = (\<lambda>imageData filename sig. scripted script),
      removeBackgroundBatch = (\<lambda>images sig w. (Inr \<lparr>results = []\<rparr>, w)),
      downloadMask = (\<lambda>url sig w. (download, w))\<rparr>"

definition always_succeeds :: "'a \<Rightarrow> nat \<Rightarrow> js_value + 'a" where
  "always_succeeds v k = Inr v"

definition mock_fetch ::
  "(nat \<Rightarrow> js_value + ('r, probe) Response) \<Rightarrow> ('r, probe) fetch" where
  "mock_fetch script url init = scripted script"

definition mask_response :: RemoveBgResponse where
  "mask_response = \<lparr>result = \<lparr>output_url = ''http://test.com/mask.png'', credits_used = 1\<rparr>\<rparr>"

definition network_failure :: js_value where
  "network_failure = ApiError ''Network error. Please check your connection.'' 0 (Some ''NETWORK_ERROR'')"

definition unauthenticated :: js_value where
  "unauthenticated = ApiError ''Not authenticated'' 401 (Some ''UNAUTHENTICATED'')"

definition one_image :: "PenpotImageInfo list" where
  "one_image = [\<lparr>image_id = ''1'', image_name = ''Image 1''\<rparr>]"

definition no_token :: "probe \<Rightarrow> string option" where
  "no_token w = None"

definition scenario_options :: "probe RetryOptions" where
  "scenario_options =
     \<lparr>maxAttempts = Some 3, baseDelay = Some 1, maxDelay = None, multiplier = None,
      jitter = Some False, isRetryable = None, onRetry = Some log_retry,
      signal = Some abort_flag\<rparr>"

section \<open>Properties\<close>

subsection \<open>The error classifier\<close>

text \<open>
  C10. Whatever is thrown (an error of any class, or a value that is no error at all),
  \<open>mapErrorToDetails\<close> answers with \<open>recoverable = True\<close>, so
  \<open>isRecoverableError\<close> is true of every input; this covers the inputs classified
  \<open>PROCESSING_FAILED\<close>, \<open>NETWORK_ERROR\<close>, \<open>TIMEOUT\<close> and \<open>UNKNOWN\<close>.
\<close>

theorem mapErrorToDetails_always_recoverable:
  "recoverable (mapErrorToDetails error) = True \<and> isRecoverableError error = True"
  unfolding isRecoverableError_def mapErrorToDetails_def
  by simp

subsection \<open>The retry executor\<close>

lemma calculateDelay_probe:
  "calculateDelay (probe_platform r) a (opt_baseDelay options) (opt_maxDelay options)
      (opt_multiplier options) (opt_jitter options) w = (probe_delay options r a, w)"
  by (simp add: calculateDelay_def probe_platform_def probe_delay_def backoff_def Let_def)

lemma timer_probe: "timer (probe_platform r) ms w = w\<lparr>slept := slept w @ [ms]\<rparr>"
  by (simp add: probe_platform_def)

lemma loop_step:
  assumes "int a < opt_maxAttempts options" "\<not> abort_flag w"
    "signal options = Some abort_flag" "onRetry options = Some log_retry"
    "script (calls w) = Inl e" "opt_isRetryable options e"
  shows "withRetry_loop (probe_platform r) (scripted script) options a le w =
         withRetry_loop (probe_platform r) (scripted script) options (Suc a) e
           (w\<lparr>calls := calls w + 1,
              retried := retried w @ [(a, e, probe_delay options r a)],
              slept := slept w @ [probe_delay options r a]\<rparr>)"
  using assms
  by (subst withRetry_loop.simps)
     (simp add: calculateDelay_probe aborted_def scripted_def sleep_def call_onRetry_def
        log_retry_def timer_probe Let_def)



lemma loop_last:
  assumes "int a = opt_maxAttempts options" "\<not> abort_flag w"
    "signal options = Some abort_flag" "script (calls w) = Inl e"
  shows "withRetry_loop (probe_platform r) (scripted script) options a le w =
         (Inl e, w\<lparr>calls := calls w + 1\<rparr>)"
  using assms
  by (subst withRetry_loop.simps) (simp add: aborted_def scripted_def)

lemma loop_success:
  assumes "int a \<le> opt_maxAttempts options" "\<not> abort_flag w"
    "signal options = Some abort_flag" "script (calls w) = Inr v"
  shows "withRetry_loop (probe_platform r) (scripted script) options a le w =
         (Inr v, w\<lparr>calls := calls w + 1\<rparr>)"
  using assms
  by (subst withRetry_loop.simps) (simp add: aborted_def scripted_def)

lemma loop_always_failing:
  assumes retr: "\<forall>k. opt_isRetryable options (errs k)"
    and sig: "signal options = Some abort_flag" and onr: "onRetry options = Some log_retry"
  shows "\<not> abort_flag w \<Longrightarrow> int a \<le> opt_maxAttempts options \<Longrightarrow>
     withRetry_loop (probe_platform r) (scripted (always_fails errs)) options a le w =
       (Inl (errs (calls w + (nat (opt_maxAttempts options) - a))),
        w\<lparr>calls := calls w + (nat (opt_maxAttempts options) - a) + 1,
          retried := retried w @ map (\<lambda>k. (k, errs (calls w + (k - a)), probe_delay options r k))
                                    [a..<nat (opt_maxAttempts options)],
          slept := slept w @ map (probe_delay options r) [a..<nat (opt_maxAttempts options)]\<rparr>)"
proof (induction "nat (opt_maxAttempts options) - a" arbitrary: a w le)
  case 0
  then have aN: "int a = opt_maxAttempts options" by linarith
  then have "nat (opt_maxAttempts options) = a" by linarith
  moreover have "always_fails errs (calls w) = Inl (errs (calls w))"
    by (simp add: always_fails_def)
  ultimately show ?case
    using loop_last[where script="always_fails errs" and e="errs (calls w)" and r=r and le=le
                      and a=a and w=w and options=options] aN 0(2) sig
    by simp
next
  case (Suc d)
  then have lt: "int a < opt_maxAttempts options" by linarith
  let ?N = "nat (opt_maxAttempts options)"
  let ?w = "w\<lparr>calls := calls w + 1,
              retried := retried w @ [(a, errs (calls w), probe_delay options r a)],
              slept := slept w @ [probe_delay options r a]\<rparr>"
  have d: "d = ?N - Suc a" using Suc(2) by linarith
  have nf: "\<not> abort_flag ?w" using Suc(3) by simp
  have le': "int (Suc a) \<le> opt_maxAttempts options" using lt by linarith
  have up: "[a..<?N] = a # [Suc a..<?N]"
    using lt by (simp add: upt_conv_Cons)
  have sc: "always_fails errs (calls w) = Inl (errs (calls w))"
    by (simp add: always_fails_def)
  have step: "withRetry_loop (probe_platform r) (scripted (always_fails errs)) options a le w =
      withRetry_loop (probe_platform r) (scripted (always_fails errs)) options (Suc a) (errs (calls w)) ?w"
    using loop_step[where script="always_fails errs" and e="errs (calls w)" and r=r and le=le
                      and a=a and w=w and options=options] lt Suc(3) sig onr retr sc
    by simp
  have ix: "calls w + (?N - a) = Suc (calls w + (?N - Suc a))"
    using lt by linarith
  have mp: "map (\<lambda>k. (k, errs (Suc (calls w + (k - Suc a))), probe_delay options r k)) [Suc a..<?N]
          = map (\<lambda>k. (k, errs (calls w + (k - a)), probe_delay options r k)) [Suc a..<?N]"
  proof (rule map_cong[OF refl])
    fix k assume "k \<in> set [Suc a..<?N]"
    then have "Suc a \<le> k" by simp
    then have eq: "Suc (calls w + (k - Suc a)) = calls w + (k - a)" by linarith
    show "(k, errs (Suc (calls w + (k - Suc a))), probe_delay options r k)
             = (k, errs (calls w + (k - a)), probe_delay options r k)" by (simp only: eq)
  qed
  show ?case
    unfolding step Suc(1)[OF d nf le'] up
    using ix mp by simp
qed


text \<open>
  C3. For every \<open>N \<ge> 1\<close>: run with \<open>maxAttempts = N\<close> and a signal that is not aborted,
  on an operation whose every invocation rejects with an error that the predicate in force
  (the default one, or the one given in the options) calls retryable, \<open>withRetry\<close>
  invokes the operation exactly \<open>N\<close> times and rejects with the very error of the last
  invocation, \<open>errs (N - 1)\<close>, whatever the delays, the multiplier and the jitter are.
\<close>

theorem withRetry_exhausts_attempts:
  assumes "1 \<le> N"
    and "\<forall>k. (case p of None \<Rightarrow> isRetryableError | Some q \<Rightarrow> q) (errs k)"
  shows "fst (withRetry (probe_platform r) (scripted (always_fails errs))
           \<lparr>maxAttempts = Some N, baseDelay = b, maxDelay = M, multiplier = m, jitter = j,
            isRetryable = p, onRetry = Some log_retry, signal = Some abort_flag\<rparr> fresh)
         = Inl (errs (nat N - 1))
       \<and> calls (snd (withRetry (probe_platform r) (scripted (always_fails errs))
              \<lparr>maxAttempts = Some N, baseDelay = b, maxDelay = M, multiplier = m, jitter = j,
               isRetryable = p, onRetry = Some log_retry, signal = Some abort_flag\<rparr> fresh)) = nat N"
proof -
  let ?o = "\<lparr>maxAttempts = Some N, baseDelay = b, maxDelay = M, multiplier = m, jitter = j,
            isRetryable = p, onRetry = Some log_retry, signal = Some abort_flag\<rparr>"
  have N: "opt_maxAttempts ?o = N" by (simp add: opt_maxAttempts_def)
  have retr: "\<forall>k. opt_isRetryable ?o (errs k)" using assms(2) by (simp add: opt_isRetryable_def)
  have le: "int 1 \<le> opt_maxAttempts ?o" using assms(1) N by simp
  have nf: "\<not> abort_flag fresh" by (simp add: fresh_def)
  have c0: "calls fresh = 0" by (simp add: fresh_def)
  have N1: "nat N - 1 + 1 = nat N" using assms(1) by linarith
  have le1: "int (Suc 0) \<le> opt_maxAttempts ?o" using le by simp
  note eq = loop_always_failing[where options="?o" and w=fresh and a="Suc 0" and r=r and errs=errs
         and le="NonError ''undefined''", OF retr _ _ nf le1]
  have o1: "(1::nat) = Suc 0" by simp
  show ?thesis
    unfolding withRetry_def o1
    by (subst (1 2) eq) (use N N1 c0 in simp_all)
qed

lemma network_message_retryable:
  "isRetryableError (ApiError ''Network error. Please check your connection.'' st c)"
proof -
  have "str_includes (toLowerCase ''Network error. Please check your connection.'') ''network''"
    by (simp add: toLowerCase_def lower_char_def)
  then show ?thesis by (simp add: isRetryableError_def)
qed

theorem withRetry_exhausts_attempts_witness:
  "1 \<le> (2::int) \<and> isRetryableError (numbered_failure 0) \<and> isRetryableError (numbered_failure 1)
   \<and> fst (withRetry (probe_platform 0) (scripted (always_fails numbered_failure))
           \<lparr>maxAttempts = Some 2, baseDelay = Some 1, maxDelay = None, multiplier = None,
            jitter = Some False, isRetryable = None, onRetry = Some log_retry,
            signal = Some abort_flag\<rparr> fresh)
        = (Inl (numbered_failure 1) :: js_value + unit)
   \<and> calls (snd (withRetry (probe_platform 0)
           (scripted (always_fails numbered_failure :: nat \<Rightarrow> js_value + unit))
           \<lparr>maxAttempts = Some 2, baseDelay = Some 1, maxDelay = None, multiplier = None,
            jitter = Some False, isRetryable = None, onRetry = Some log_retry,
            signal = Some abort_flag\<rparr> fresh)) = 2"
proof -
  have r: "\<forall>k. (case None of None \<Rightarrow> isRetryableError | Some q \<Rightarrow> q) (numbered_failure k)"
    by (simp add: numbered_failure_def network_message_retryable)
  have one: "(1::int) \<le> 2" by simp
  show ?thesis
    using withRetry_exhausts_attempts[OF one r, of 0 "Some 1" None None "Some False"] r
    by simp
qed



subsection \<open>The retry predicate and timeouts\<close>

lemma show_nat_messageTimeout: "show_nat messageTimeout = ''10000''"
  unfolding messageTimeout_def
  by (simp add: show_nat.simps[of 10000] show_nat.simps[of 1000] show_nat.simps[of 100]
        show_nat.simps[of 10] show_nat.simps[of "Suc 0"] digit_char_def)

text \<open>
  C5 at the error of \<open>withTimeout\<close>. An export that does not answer within
  \<open>messageTimeout\<close> ends in \<open>TimeoutError\<close> with the message
  \<^verbatim>\<open>Operation timed out after 10000ms\<close>. The classifier calls it \<open>TIMEOUT\<close>, but
  the retry predicate looks for the substring \<^verbatim>\<open>timeout\<close> in the message, which
  \<^verbatim>\<open>timed out\<close> does not contain, and answers that the error is not retryable.
\<close>

theorem timeout_error_not_retried:
  "fst (withTimeout (probe_platform 0) never_settles messageTimeout None fresh)
     = Inl (TimeoutError ''Operation timed out after 10000ms'')
   \<and> isRetryableError (TimeoutError ''Operation timed out after 10000ms'') = False
   \<and> code (mapErrorToDetails (TimeoutError ''Operation timed out after 10000ms'')) = TIMEOUT"
proof -
  have a: "fst (withTimeout (probe_platform 0) never_settles messageTimeout None fresh)
     = Inl (TimeoutError ''Operation timed out after 10000ms'')"
  proof -
    have "\<not> (20000::real) < real messageTimeout" by (simp add: messageTimeout_def)
    then show ?thesis
      by (simp add: withTimeout_def never_settles_def show_nat_messageTimeout)
  qed
  have b: "isRetryableError (TimeoutError ''Operation timed out after 10000ms'') = False"
    by (simp add: isRetryableError_def toLowerCase_def lower_char_def)
  have c: "code (mapErrorToDetails (TimeoutError ''Operation timed out after 10000ms'')) = TIMEOUT"
    by (simp add: mapErrorToDetails_def)
  from a b c show ?thesis by blast
qed

text \<open>
  The same happens to the error that \<open>request\<close> builds for a response of status 500:
  its message carries the status text, not the number.
\<close>

lemma server_error_of_request_not_retried:
  "isRetryableError (createApiError 500 ''Internal Server Error'') = False"
  by (simp add: createApiError_def isRetryableError_def toLowerCase_def lower_char_def)

text \<open>The inputs of the repository's tests, on which the predicate answers as C5 says.\<close>

lemma isRetryableError_on_tested_inputs:
  "isRetryableError (AbortError m) = False"
  "isRetryableError (NonError v) = False"
  "isRetryableError (Error ''Network connection failed'') = True"
  "isRetryableError (Error ''Server returned 500'') = True"
  "isRetryableError (Error ''401 Unauthorized'') = False"
  "isRetryableError (Error ''404 Not Found'') = False"
  "isRetryableError (Error ''Request timeout'') = True"
  "isRetryableError (Error ''Something else'') = False"
  by (simp_all add: isRetryableError_def toLowerCase_def lower_char_def)

subsection \<open>The pipeline and its remote calls\<close>

lemma fails_once_run:
  assumes "opt_isRetryable scenario_options e"
  shows "withRetry (probe_platform r) (scripted (fails_once e v)) scenario_options fresh
         = (Inr v, \<lparr>calls = 2, slept = [1], retried = [(1, e, 1)], abort_flag = False\<rparr>)"
proof -
  have N: "opt_maxAttempts scenario_options = 3"
    by (simp add: opt_maxAttempts_def scenario_options_def)
  have sg: "signal scenario_options = Some abort_flag" "onRetry scenario_options = Some log_retry"
    by (simp_all add: scenario_options_def)
  have d: "probe_delay scenario_options r (Suc 0) = 1"
    by (simp add: probe_delay_def backoff_def opt_jitter_def opt_baseDelay_def opt_maxDelay_def
          opt_multiplier_def scenario_options_def)
  have o1: "(1::nat) = Suc 0" by simp
  have s1: "withRetry_loop (probe_platform r) (scripted (fails_once e v)) scenario_options (Suc 0)
              (NonError ''undefined'') fresh
          = withRetry_loop (probe_platform r) (scripted (fails_once e v)) scenario_options (Suc (Suc 0)) e
              (fresh\<lparr>calls := calls fresh + 1,
                 retried := retried fresh @ [(Suc 0, e, probe_delay scenario_options r (Suc 0))],
                 slept := slept fresh @ [probe_delay scenario_options r (Suc 0)]\<rparr>)"
    by (rule loop_step) (use N sg assms in \<open>simp_all add: fresh_def fails_once_def\<close>)
  show ?thesis
    unfolding withRetry_def o1 s1
    by (subst loop_success[where v=v]) (use N sg in \<open>simp_all add: fresh_def fails_once_def d\<close>)
qed

lemma process_next_remote_failure:
  assumes "i < length images" "\<not> aborted sig w"
    and "exportImage (image_id (images ! i))
           (onProgress \<lparr>current = i, total = length images,
              status_text = ''Exporting '' @ image_name (images ! i) @ ''...'',
              imageId = image_id (images ! i), stage = stage_exporting\<rparr> w) = (Inr imageData, w2)"
    and "\<not> aborted sig w2"
    and "removeBackground api imageData (image_name (images ! i) @ ''.png'') sig
           (onProgress \<lparr>current = i, total = length images,
              status_text = ''Processing '' @ image_name (images ! i) @ ''...'',
              imageId = image_id (images ! i), stage = stage_processing\<rparr> w2) = (Inl e, w4)"
  shows "process_next api applyMaskToImage images exportImage onProgress sig (At i) w
         = ((Threw e, Finished), w4)"
  using assms by (simp add: process_next_def Let_def)

lemma process_next_download_failure:
  assumes "i < length images" "\<not> aborted sig w"
    and "exportImage (image_id (images ! i))
           (onProgress \<lparr>current = i, total = length images,
              status_text = ''Exporting '' @ image_name (images ! i) @ ''...'',
              imageId = image_id (images ! i), stage = stage_exporting\<rparr> w) = (Inr imageData, w2)"
    and "\<not> aborted sig w2"
    and "removeBackground api imageData (image_name (images ! i) @ ''.png'') sig
           (onProgress \<lparr>current = i, total = length images,
              status_text = ''Processing '' @ image_name (images ! i) @ ''...'',
              imageId = image_id (images ! i), stage = stage_processing\<rparr> w2) = (Inr response, w4)"
    and "\<not> aborted sig w4"
    and "downloadMask api (output_url (result response)) sig
           (onProgress \<lparr>current = i, total = length images,
              status_text = ''Downloading mask...'',
              imageId = image_id (images ! i), stage = stage_downloading\<rparr> w4) = (Inl e, w6)"
  shows "process_next api applyMaskToImage images exportImage onProgress sig (At i) w
         = ((Threw e, Finished), w6)"
  using assms by (simp add: process_next_def Let_def)

text \<open>
  C1, as the code has it. The pipeline does not run its remote stages through the retry
  executor: \<open>process\<close> calls \<open>removeBackground\<close> and \<open>downloadMask\<close> itself, once,
  handing them the batch's signal, and when one of them rejects the generator throws that
  error at once and is finished. The retry executor on its own does what the scenario says:
  with \<open>maxAttempts = 3\<close>, \<open>baseDelay = 1\<close>, no jitter and a signal that is not aborted,
  an operation that rejects once with a retryable error and then resolves is invoked twice,
  \<open>withRetry\<close> resolves with its value after one wait of 1 ms, and \<open>onRetry\<close> was
  called once, with attempt 1.
\<close>

theorem pipeline_propagates_and_withRetry_recovers:
  "(i < length images \<and> \<not> aborted sig w
     \<and> exportImage (image_id (images ! i))
           (onProgress \<lparr>current = i, total = length images,
              status_text = ''Exporting '' @ image_name (images ! i) @ ''...'',
              imageId = image_id (images ! i), stage = stage_exporting\<rparr> w) = (Inr imageData, w2)
     \<and> \<not> aborted sig w2
     \<and> removeBackground api imageData (image_name (images ! i) @ ''.png'') sig
           (onProgress \<lparr>current = i, total = length images,
              status_text = ''Processing '' @ image_name (images ! i) @ ''...'',
              imageId = image_id (images ! i), stage = stage_processing\<rparr> w2) = (outcome, w4)
     \<longrightarrow>
       (outcome = Inl e \<longrightarrow>
          process_next api applyMaskToImage images exportImage onProgress sig (At i) w
            = ((Threw e, Finished), w4))
     \<and> (outcome = Inr response \<and> \<not> aborted sig w4
          \<and> downloadMask api (output_url (result response)) sig
               (onProgress \<lparr>current = i, total = length images,
                  status_text = ''Downloading mask...'',
                  imageId = image_id (images ! i), stage = stage_downloading\<rparr> w4) = (Inl e, w6)
          \<longrightarrow>
          process_next api applyMaskToImage images exportImage onProgress sig (At i) w
            = ((Threw e, Finished), w6)))
   \<and> (isRetryableError e' \<longrightarrow>
        withRetry (probe_platform r) (scripted (fails_once e' v)) scenario_options fresh
          = (Inr v, \<lparr>calls = 2, slept = [1], retried = [(1, e', 1)], abort_flag = False\<rparr>))"
proof -
  have "opt_isRetryable scenario_options e'" if "isRetryableError e'"
    using that by (simp add: opt_isRetryable_def scenario_options_def)
  then show ?thesis
    using process_next_remote_failure[where api=api and sig=sig and w=w and ?w2.0=w2
              and ?w4.0=w4 and i=i and images=images and exportImage=exportImage
              and onProgress=onProgress and imageData=imageData and e=e
              and applyMaskToImage=applyMaskToImage]
          process_next_download_failure[where api=api and sig=sig and w=w and ?w2.0=w2
              and ?w4.0=w4 and i=i and images=images and exportImage=exportImage
              and onProgress=onProgress and imageData=imageData and e=e
              and applyMaskToImage=applyMaskToImage and response=response and ?w6.0=w6]
          fails_once_run[of e' r v]
    by blast
qed

theorem pipeline_propagates_and_withRetry_recovers_witness:
  "process_next (mock_api (fails_once network_failure mask_response) (Inr [4, 5])) mock_apply one_image
        mock_export no_progress (Some abort_flag) (At 0) fresh
     = ((Threw network_failure, Finished),
        \<lparr>calls = 1, slept = [], retried = [], abort_flag = False\<rparr>)
   \<and> process_next (mock_api (always_succeeds mask_response) (Inl network_failure)) mock_apply one_image
        mock_export no_progress (Some abort_flag) (At 0) fresh
     = ((Threw network_failure, Finished),
        \<lparr>calls = 1, slept = [], retried = [], abort_flag = False\<rparr>)
   \<and> isRetryableError network_failure
   \<and> withRetry (probe_platform 0) (scripted (fails_once network_failure mask_response))
          scenario_options fresh
        = (Inr mask_response,
           \<lparr>calls = 2, slept = [1], retried = [(1, network_failure, 1)], abort_flag = False\<rparr>)"
proof -
  let ?w1 = "\<lparr>calls = 1, slept = [], retried = [], abort_flag = False\<rparr>"
  have r: "isRetryableError network_failure"
    by (simp add: network_failure_def network_message_retryable)
  have a: "0 < length one_image \<and> \<not> aborted (Some abort_flag) fresh
     \<and> mock_export (image_id (one_image ! 0))
           (no_progress \<lparr>current = 0, total = length one_image,
              status_text = ''Exporting '' @ image_name (one_image ! 0) @ ''...'',
              imageId = image_id (one_image ! 0), stage = stage_exporting\<rparr> fresh) = (Inr [1, 2, 3], fresh)
     \<and> \<not> aborted (Some abort_flag) fresh"
    by (simp add: one_image_def aborted_def fresh_def mock_export_def no_progress_def)
  have b: "removeBackground (mock_api (fails_once network_failure mask_response) (Inr [4, 5]))
           [1, 2, 3] (image_name (one_image ! 0) @ ''.png'') (Some abort_flag)
           (no_progress \<lparr>current = 0, total = length one_image,
              status_text = ''Processing '' @ image_name (one_image ! 0) @ ''...'',
              imageId = image_id (one_image ! 0), stage = stage_processing\<rparr> fresh)
          = (Inl network_failure, ?w1)"
    by (simp add: mock_api_def scripted_def fails_once_def no_progress_def fresh_def)
  have c: "removeBackground (mock_api (always_succeeds mask_response) (Inl network_failure))
           [1, 2, 3] (image_name (one_image ! 0) @ ''.png'') (Some abort_flag)
           (no_progress \<lparr>current = 0, total = length one_image,
              status_text = ''Processing '' @ image_name (one_image ! 0) @ ''...'',
              imageId = image_id (one_image ! 0), stage = stage_processing\<rparr> fresh)
          = (Inr mask_response, ?w1)
       \<and> \<not> aborted (Some abort_flag) ?w1
       \<and> downloadMask (mock_api (always_succeeds mask_response) (Inl network_failure))
            (output_url (result mask_response)) (Some abort_flag)
               (no_progress \<lparr>current = 0, total = length one_image,
                  status_text = ''Downloading mask...'',
                  imageId = image_id (one_image ! 0), stage = stage_downloading\<rparr> ?w1)
          = (Inl network_failure, ?w1)"
    by (simp add: mock_api_def scripted_def always_succeeds_def no_progress_def fresh_def aborted_def)
  show ?thesis
    using pipeline_propagates_and_withRetry_recovers[where i=0 and images=one_image
        and sig="Some abort_flag" and w=fresh and exportImage=mock_export
        and onProgress=no_progress and imageData="[1, 2, 3]" and ?w2.0=fresh
        and api="mock_api (fails_once network_failure mask_response) (Inr [4, 5])"
        and outcome="Inl network_failure" and ?w4.0="?w1" and e=network_failure
        and applyMaskToImage=mock_apply and response=mask_response and ?w6.0="?w1"
        and e'=network_failure and r=0 and v=mask_response]
      pipeline_propagates_and_withRetry_recovers[where i=0 and images=one_image
        and sig="Some abort_flag" and w=fresh and exportImage=mock_export
        and onProgress=no_progress and imageData="[1, 2, 3]" and ?w2.0=fresh
        and api="mock_api (always_succeeds mask_response) (Inl network_failure)"
        and outcome="Inr mask_response" and ?w4.0="?w1" and e=network_failure
        and applyMaskToImage=mock_apply and response=mask_response and ?w6.0="?w1"
        and e'=network_failure and r=0 and v=mask_response]
      a b c r
    by simp
qed

text \<open>
  C1 as stated fails: with a \<open>removeBackground\<close> that rejects once with a retryable error
  and would resolve at the next invocation, the pipeline invokes it once, waits for nothing,
  and throws the error instead of yielding the item's result.
\<close>

theorem pipeline_does_not_retry:
  "isRetryableError network_failure
   \<and> process_next (mock_api (fails_once network_failure mask_response) (Inr [4, 5])) mock_apply
        one_image mock_export no_progress (Some abort_flag) (At 0) fresh
     = ((Threw network_failure, Finished),
        \<lparr>calls = 1, slept = [], retried = [], abort_flag = False\<rparr>)"
  by (simp add: network_failure_def network_message_retryable process_next_def mock_api_def
        one_image_def mock_export_def no_progress_def aborted_def fresh_def scripted_def
        fails_once_def)

lemma withRetry_not_retryable:
  assumes "fn w = (Inl e, w')" "\<not> isRetryableError e"
    "1 \<le> opt_maxAttempts options" "isRetryable options = None" "\<not> aborted (signal options) w"
  shows "withRetry pf fn options w = (Inl e, w')"
  unfolding withRetry_def
  by (subst withRetry_loop.simps) (use assms in \<open>simp add: opt_isRetryable_def\<close>)

lemma unauthenticated_not_retryable: "\<not> isRetryableError unauthenticated"
  by (simp add: unauthenticated_def isRetryableError_def toLowerCase_def lower_char_def)

lemma request_without_token:
  "getToken w = None \<Longrightarrow>
   request cfg getToken fetch endpoint http_method body sig w = (Inl unauthenticated, w)"
  by (simp add: request_def unauthenticated_def)

text \<open>
  C9. When \<open>getToken\<close> returns \<^verbatim>\<open>null\<close>, every authenticated call, that is
  \<open>request\<close> for any endpoint, method and body, and with it \<open>removeBackground\<close> and
  \<open>removeBackgroundBatch\<close>, rejects with the \<open>ApiError\<close> of status 401 and leaves the
  world as it was: \<^verbatim>\<open>fetch\<close> is never applied, so no request is issued. The classifier
  maps the error to \<open>SESSION_EXPIRED\<close>. Run under \<open>withRetry\<close> with the default
  predicate and a signal that is not aborted, each of these calls is made once and the error
  is thrown without a retry: no \<open>onRetry\<close>, no sleep, the world unchanged.
\<close>

theorem unauthenticated_call_fails_without_request:
  assumes "getToken w = None"
  shows "request cfg getToken fetch_any endpoint http_method body sig w
           = (Inl unauthenticated, w)
       \<and> removeBackground (createApiService cfg getToken fetch fetch_batch) imageData filename sig w
           = (Inl unauthenticated, w)
       \<and> removeBackgroundBatch (createApiService cfg getToken fetch fetch_batch) images sig w
           = (Inl unauthenticated, w)
       \<and> status unauthenticated = Some 401
       \<and> code (mapErrorToDetails unauthenticated) = SESSION_EXPIRED
       \<and> (1 \<le> opt_maxAttempts options \<and> isRetryable options = None
            \<and> \<not> aborted (signal options) w \<longrightarrow>
          withRetry pf (request cfg getToken fetch_any endpoint http_method body sig) options w
            = (Inl unauthenticated, w)
          \<and> withRetry pf
               (removeBackground (createApiService cfg getToken fetch fetch_batch) imageData
                  filename sig) options w
            = (Inl unauthenticated, w)
          \<and> withRetry pf
               (removeBackgroundBatch (createApiService cfg getToken fetch fetch_batch) images sig)
               options w
            = (Inl unauthenticated, w))"
proof -
  have rq: "request cfg getToken fetch_any endpoint http_method body sig w
              = (Inl unauthenticated, w)"
    using assms by (rule request_without_token)
  have one: "removeBackground (createApiService cfg getToken fetch fetch_batch) imageData filename
               sig w = (Inl unauthenticated, w)"
    using assms by (simp add: createApiService_def request_without_token)
  have many: "removeBackgroundBatch (createApiService cfg getToken fetch fetch_batch) images sig w
               = (Inl unauthenticated, w)"
    using assms by (simp add: createApiService_def request_without_token)
  have st: "status unauthenticated = Some 401" by (simp add: unauthenticated_def)
  have cl: "code (mapErrorToDetails unauthenticated) = SESSION_EXPIRED"
    by (simp add: unauthenticated_def mapErrorToDetails_def isAuthError_getter_def)
  have rt: "withRetry pf (request cfg getToken fetch_any endpoint http_method body sig) options w
            = (Inl unauthenticated, w)
          \<and> withRetry pf
               (removeBackground (createApiService cfg getToken fetch fetch_batch) imageData
                  filename sig) options w
            = (Inl unauthenticated, w)
          \<and> withRetry pf
               (removeBackgroundBatch (createApiService cfg getToken fetch fetch_batch) images sig)
               options w
            = (Inl unauthenticated, w)"
    if "1 \<le> opt_maxAttempts options" "isRetryable options = None" "\<not> aborted (signal options) w"
    using rq one many that unauthenticated_not_retryable
    by (simp add: withRetry_not_retryable)
  from rq one many st cl rt show ?thesis by blast
qed

theorem unauthenticated_call_fails_without_request_witness:
  "no_token fresh = None
   \<and> removeBackground (createApiService (config_api False) no_token
          (mock_fetch (always_fails numbered_failure))
          (mock_fetch (always_fails numbered_failure))) [1, 2, 3] ''test.png''
          (Some abort_flag) fresh
       = (Inl unauthenticated, \<lparr>calls = 0, slept = [], retried = [], abort_flag = False\<rparr>)
   \<and> removeBackgroundBatch (createApiService (config_api False) no_token
          (mock_fetch (always_fails numbered_failure))
          (mock_fetch (always_fails numbered_failure))) [([1, 2, 3], ''test1.png'')]
          (Some abort_flag) fresh
       = (Inl unauthenticated, \<lparr>calls = 0, slept = [], retried = [], abort_flag = False\<rparr>)
   \<and> code (mapErrorToDetails unauthenticated) = SESSION_EXPIRED
   \<and> withRetry (probe_platform 0)
        (removeBackground (createApiService (config_api False) no_token
           (mock_fetch (always_fails numbered_failure))
           (mock_fetch (always_fails numbered_failure))) [1, 2, 3] ''test.png''
           (Some abort_flag))
        scenario_options fresh
       = (Inl unauthenticated, \<lparr>calls = 0, slept = [], retried = [], abort_flag = False\<rparr>)"
proof -
  have t: "no_token fresh = None" by (simp add: no_token_def)
  have o: "1 \<le> opt_maxAttempts scenario_options \<and> isRetryable scenario_options = None
            \<and> \<not> aborted (signal scenario_options) fresh"
    by (simp add: scenario_options_def opt_maxAttempts_def aborted_def fresh_def)
  show ?thesis
    using unauthenticated_call_fails_without_request[where getToken=no_token and w=fresh
        and cfg="config_api False" and fetch="mock_fetch (always_fails numbered_failure)"
        and fetch_batch="mock_fetch (always_fails numbered_failure)"
        and fetch_any="mock_fetch (always_fails numbered_failure)
                         :: (RemoveBgResponse, probe) fetch"
        and endpoint="''/v1/remove-bg?output=mask''" and http_method="Some ''POST''" and body="[]"
        and imageData="[1, 2, 3]" and filename="''test.png''" and sig="Some abort_flag"
        and images="[([1, 2, 3], ''test1.png'')]"
        and options=scenario_options and pf="probe_platform 0"] t o
    by (simp add: fresh_def)
qed

subsection \<open>Rounding to a double\<close>

lemma pow2_powi: "pow2 e = 2 powi e"
  by (simp add: pow2_def power_int_def power_one_over)

lemma pow2_pos: "0 < pow2 e"
  by (simp add: pow2_def)

lemma pow2_add: "pow2 (a + b) = pow2 a * pow2 b"
  by (simp add: pow2_powi power_int_add)

lemma pow2_nat: "0 \<le> e \<Longrightarrow> pow2 e = 2 ^ nat e"
  by (simp add: pow2_def)

lemma real_pow2_le: "(2::int) ^ k \<le> n \<Longrightarrow> (2::real) ^ k \<le> real_of_int n"
  using of_int_le_iff[of "2 ^ k" n, where 'a = real] by simp

lemma real_less_pow2: "n < (2::int) ^ k \<Longrightarrow> real_of_int n + 1 \<le> (2::real) ^ k"
proof -
  assume "n < (2::int) ^ k"
  then have "n + 1 \<le> 2 ^ k" by linarith
  then show ?thesis using of_int_le_iff[of "n + 1" "2 ^ k", where 'a = real] by simp
qed

lemma binade_bounds:
  assumes "0 < x"
  shows "pow2 (binade x) \<le> x \<and> x < pow2 (binade x + 1)"
proof (cases "1 \<le> x")
  case True
  let ?n = "\<lfloor>x\<rfloor>"
  have n: "0 < ?n" using True by linarith
  have b: "2 ^ nat (bitlen ?n - 1) \<le> ?n" "?n < 2 ^ nat (bitlen ?n)"
    using bitlen_bounds[OF n] by simp_all
  have ge: "1 \<le> bitlen ?n" using n by (simp add: bitlen_alt_def)
  have e: "binade x = bitlen ?n - 1" using True by (simp add: binade_def)
  have fl: "real_of_int ?n \<le> x" "x < real_of_int ?n + 1" by linarith+
  have "(2::real) ^ nat (bitlen ?n - 1) \<le> real_of_int ?n" using b(1) by (rule real_pow2_le)
  moreover have "pow2 (binade x) = 2 ^ nat (bitlen ?n - 1)"
    unfolding e using ge by (simp add: pow2_nat)
  ultimately have lo: "pow2 (binade x) \<le> x" using fl by linarith
  have "real_of_int ?n + 1 \<le> (2::real) ^ nat (bitlen ?n)" using b(2) by (rule real_less_pow2)
  moreover have "pow2 (binade x + 1) = 2 ^ nat (bitlen ?n)"
    unfolding e using ge by (simp add: pow2_nat)
  ultimately have hi: "x < pow2 (binade x + 1)" using fl by linarith
  from lo hi show ?thesis by simp
next
  case False
  let ?y = "1 / x"
  let ?k = "\<lceil>?y\<rceil> - 1"
  have y: "1 < ?y" using False assms by simp
  then have k: "0 < ?k" by linarith
  have b: "2 ^ nat (bitlen ?k - 1) \<le> ?k" "?k < 2 ^ nat (bitlen ?k)"
    using bitlen_bounds[OF k] by simp_all
  have ge: "1 \<le> bitlen ?k" using k by (simp add: bitlen_alt_def)
  have e: "binade x = - bitlen ?k" using False by (simp add: binade_def)
  have cl: "?y \<le> real_of_int ?k + 1" "real_of_int ?k < ?y" by linarith+
  have "real_of_int ?k + 1 \<le> (2::real) ^ nat (bitlen ?k)" using b(2) by (rule real_less_pow2)
  then have "?y \<le> 2 ^ nat (bitlen ?k)" using cl by linarith
  then have "1 \<le> x * 2 ^ nat (bitlen ?k)"
    using assms by (simp add: field_simps)
  then have lo: "pow2 (binade x) \<le> x"
    unfolding e using ge assms by (simp add: pow2_def field_simps)
  have "(2::real) ^ nat (bitlen ?k - 1) \<le> real_of_int ?k" using b(1) by (rule real_pow2_le)
  then have "2 ^ nat (bitlen ?k - 1) < ?y" using cl by linarith
  then have lt: "x * 2 ^ nat (bitlen ?k - 1) < 1"
    using assms by (simp add: field_simps)
  have hi: "x < pow2 (binade x + 1)"
  proof (cases "bitlen ?k = 1")
    case True
    then show ?thesis unfolding e using False by (simp add: pow2_def)
  next
    case F: False
    then have neg: "\<not> 0 \<le> - bitlen ?k + 1" using ge by linarith
    have nn: "nat (- (- bitlen ?k + 1)) = nat (bitlen ?k - 1)" by simp
    have p: "pow2 (- bitlen ?k + 1) = 1 / 2 ^ nat (bitlen ?k - 1)"
      using neg nn by (simp add: pow2_def)
    have "x < 1 / 2 ^ nat (bitlen ?k - 1)" using lt by (simp add: field_simps)
    then show ?thesis unfolding e p .
  qed
  from lo hi show ?thesis by simp
qed

lemma round_even_error: "\<bar>real_of_int (round_even x) - x\<bar> \<le> 1 / 2"
  unfolding round_even_def by (auto; linarith)

lemma round_even_nonneg: "0 \<le> x \<Longrightarrow> 0 \<le> round_even x"
  unfolding round_even_def by (auto; linarith)

lemma quantum_pos: "0 < quantum x"
  unfolding quantum_def by (rule pow2_pos)

lemma to_double_nonneg:
  assumes "0 \<le> x"
  shows "0 \<le> to_double x"
proof (cases "x = 0")
  case True
  then show ?thesis by (simp add: to_double_def)
next
  case False
  then have pos: "0 < x" using assms by simp
  have "0 \<le> x / quantum x" using pos quantum_pos[of x] by simp
  then have "0 \<le> real_of_int (round_even (x / quantum x))"
    using round_even_nonneg by simp
  then show ?thesis using pos quantum_pos[of x] by (simp add: to_double_def)
qed

lemma quantum_half:
  assumes "0 < x"
  shows "quantum x / 2 \<le> x / 2 ^ 53 + half_denorm"
proof (cases "- 1022 \<le> binade x")
  case True
  define s where "s = pow2 (binade x - 52)"
  have q: "quantum x = s" using True assms by (simp add: quantum_def s_def max_def)
  have "pow2 (binade x) = s * 2 ^ 52"
    unfolding s_def using pow2_add[of "binade x - 52" 52] by (simp add: pow2_def)
  then have "s * 2 ^ 52 \<le> x" using binade_bounds[OF assms] by simp
  then have "s / 2 \<le> x / 2 ^ 53" by (simp add: field_simps)
  moreover have "0 < half_denorm" unfolding half_denorm_def by (rule pow2_pos)
  ultimately show ?thesis unfolding q by linarith
next
  case False
  then have q: "quantum x = pow2 (- 1074)" using assms by (simp add: quantum_def max_def)
  have "pow2 (- 1074) = pow2 (- 1075) * pow2 1" using pow2_add[of "- 1075" 1] by simp
  then have "pow2 (- 1074) / 2 = half_denorm" by (simp add: half_denorm_def pow2_def)
  moreover have "0 \<le> x / 2 ^ 53" using assms by simp
  ultimately show ?thesis unfolding q by linarith
qed

lemma to_double_error:
  assumes "0 \<le> x"
  shows "ulp_lo * x - half_denorm \<le> to_double x \<and> to_double x \<le> ulp_hi * x + half_denorm"
proof (cases "x = 0")
  case True
  have "0 < half_denorm" unfolding half_denorm_def by (rule pow2_pos)
  then show ?thesis using True by (simp add: to_double_def)
next
  case False
  then have pos: "0 < x" using assms by simp
  define s where "s = quantum x"
  define r where "r = real_of_int (round_even (x / s))"
  have s: "0 < s" unfolding s_def by (rule quantum_pos)
  have td: "to_double x = r * s" using pos by (simp add: to_double_def r_def s_def)
  have "r * s - x = (r - x / s) * s" using s by (simp add: field_simps)
  then have "\<bar>r * s - x\<bar> = \<bar>r - x / s\<bar> * s" using s by (simp add: abs_mult)
  also have "\<dots> \<le> (1 / 2) * s"
    using round_even_error[of "x / s"] s unfolding r_def by (intro mult_right_mono) simp_all
  finally have e1: "\<bar>to_double x - x\<bar> \<le> s / 2" unfolding td by simp
  define d where "d = x / 2 ^ 53"
  have "s / 2 \<le> d + half_denorm" unfolding s_def d_def using pos by (rule quantum_half)
  then have "\<bar>to_double x - x\<bar> \<le> d + half_denorm" using e1 by linarith
  moreover have "ulp_lo * x = x - d" "ulp_hi * x = x + d"
    unfolding d_def ulp_lo_def ulp_hi_def by (simp_all add: algebra_simps)
  ultimately show ?thesis by (simp add: abs_le_iff)
qed

lemma ulp_bounds: "0 \<le> ulp_lo" "ulp_lo \<le> 1" "1 \<le> ulp_hi" "0 \<le> ulp_hi" "ulp_hi \<le> 2"
  by (simp_all add: ulp_lo_def ulp_hi_def)

lemma half_denorm_pos: "0 < half_denorm"
  unfolding half_denorm_def by (rule pow2_pos)

lemma half_denorm_small: "half_denorm \<le> 1 / 2 ^ 64"
proof -
  have "(2::real) ^ 64 \<le> 2 ^ 1075" by (rule power_increasing) simp_all
  then have "1 / (2::real) ^ 1075 \<le> 1 / 2 ^ 64" by (intro divide_left_mono) simp_all
  then show ?thesis by (simp add: half_denorm_def pow2_def)
qed

lemma relerr_0: "relerr 0 0 x x"
  by (simp add: relerr_def)

lemma relerr_to_double:
  assumes "0 \<le> y" "0 \<le> m" "relerr k m x y"
  shows "relerr (Suc k) (2 * m + 1) x (to_double y)"
proof -
  define h where "h = half_denorm"
  have h: "0 < h" unfolding h_def by (rule half_denorm_pos)
  have e: "ulp_lo * y - h \<le> to_double y" "to_double y \<le> ulp_hi * y + h"
    using to_double_error[OF assms(1)] unfolding h_def by simp_all
  have b: "ulp_lo ^ k * x - m * h \<le> y" "y \<le> ulp_hi ^ k * x + m * h"
    using assms(3) unfolding relerr_def h_def by simp_all
  have mh: "0 \<le> m * h" using assms(2) h by simp
  have "ulp_lo * (ulp_lo ^ k * x - m * h) \<le> ulp_lo * y"
    using b(1) ulp_bounds(1) by (rule mult_left_mono)
  moreover have "ulp_lo * (m * h) \<le> 1 * (m * h)"
    using ulp_bounds(2) mh by (rule mult_right_mono)
  ultimately have lo: "ulp_lo * (ulp_lo ^ k * x) - m * h \<le> ulp_lo * y"
    by (simp add: right_diff_distrib)
  have "ulp_hi * y \<le> ulp_hi * (ulp_hi ^ k * x + m * h)"
    using b(2) ulp_bounds(4) by (rule mult_left_mono)
  moreover have "ulp_hi * (m * h) \<le> 2 * (m * h)"
    using ulp_bounds(5) mh by (rule mult_right_mono)
  ultimately have hi: "ulp_hi * y \<le> ulp_hi * (ulp_hi ^ k * x) + 2 * (m * h)"
    by (simp add: distrib_left)
  have s: "(2 * m + 1) * h = 2 * (m * h) + h" by (simp add: algebra_simps)
  have "ulp_lo * (ulp_lo ^ k * x) - (2 * m + 1) * h \<le> to_double y"
    unfolding s using lo e(1) mh by linarith
  moreover have "to_double y \<le> ulp_hi * (ulp_hi ^ k * x) + (2 * m + 1) * h"
    unfolding s using hi e(2) by linarith
  ultimately show ?thesis
    unfolding relerr_def h_def by (simp add: mult.assoc)
qed

lemma relerr_add:
  assumes "0 \<le> c" "relerr k m x y"
  shows "relerr k m (c + x) (c + y)"
proof -
  have a: "ulp_lo ^ k \<le> 1" using ulp_bounds(1,2) by (intro power_le_one)
  have b: "1 \<le> ulp_hi ^ k" using ulp_bounds(3) by (intro one_le_power)
  have "ulp_lo ^ k * c \<le> 1 * c" using a assms(1) by (intro mult_right_mono)
  moreover have "1 * c \<le> ulp_hi ^ k * c" using b assms(1) by (intro mult_right_mono)
  moreover have "ulp_lo ^ k * (c + x) = ulp_lo ^ k * c + ulp_lo ^ k * x"
    "ulp_hi ^ k * (c + x) = ulp_hi ^ k * c + ulp_hi ^ k * x"
    by (simp_all add: distrib_left)
  ultimately show ?thesis
    using assms(2) unfolding relerr_def by linarith
qed

lemma relerr_div:
  assumes "1 \<le> t" "0 \<le> m" "relerr k m x y"
  shows "relerr k m (x / t) (y / t)"
proof -
  define h where "h = m * half_denorm"
  have h: "0 \<le> h" unfolding h_def using assms(2) half_denorm_pos by simp
  have t: "0 < t" using assms(1) by linarith
  have b: "ulp_lo ^ k * x - h \<le> y" "y \<le> ulp_hi ^ k * x + h"
    using assms(3) unfolding relerr_def h_def by simp_all
  have "h * 1 \<le> h * t" using assms(1) h by (rule mult_left_mono)
  then have ht: "h / t \<le> h" using t by (simp add: field_simps)
  have "(ulp_lo ^ k * x - h) / t \<le> y / t" using b(1) t by (simp add: divide_right_mono)
  then have lo: "ulp_lo ^ k * (x / t) - h \<le> y / t" using ht by (simp add: diff_divide_distrib)
  have "y / t \<le> (ulp_hi ^ k * x + h) / t" using b(2) t by (simp add: divide_right_mono)
  then have hi: "y / t \<le> ulp_hi ^ k * (x / t) + h" using ht by (simp add: add_divide_distrib)
  from lo hi show ?thesis unfolding relerr_def h_def by simp
qed

lemma relerr_mult:
  assumes "0 \<le> c" "relerr k m x y"
  shows "relerr k (m * c) (x * c) (y * c)"
proof -
  define h where "h = m * half_denorm"
  have b: "ulp_lo ^ k * x - h \<le> y" "y \<le> ulp_hi ^ k * x + h"
    using assms(2) unfolding relerr_def h_def by simp_all
  have "(ulp_lo ^ k * x - h) * c \<le> y * c" using b(1) assms(1) by (rule mult_right_mono)
  then have lo: "ulp_lo ^ k * (x * c) - m * c * half_denorm \<le> y * c"
    unfolding h_def by (simp add: algebra_simps)
  have "y * c \<le> (ulp_hi ^ k * x + h) * c" using b(2) assms(1) by (rule mult_right_mono)
  then have hi: "y * c \<le> ulp_hi ^ k * (x * c) + m * c * half_denorm"
    unfolding h_def by (simp add: algebra_simps)
  from lo hi show ?thesis unfolding relerr_def by simp
qed

lemma relerr_4_close:
  assumes "relerr 4 m v y" "0 \<le> v" "v \<le> 200" "0 \<le> m" "m \<le> 2 ^ 20"
  shows "\<bar>y - v\<bar> \<le> 1 / 2 ^ 40"
proof -
  define h where "h = m * half_denorm"
  have "m * half_denorm \<le> 2 ^ 20 * (1 / 2 ^ 64)"
    using assms(4,5) half_denorm_small half_denorm_pos by (intro mult_mono) simp_all
  then have h: "h \<le> 1 / 2 ^ 44" unfolding h_def by simp
  have b: "ulp_lo ^ 4 * v - h \<le> y" "y \<le> ulp_hi ^ 4 * v + h"
    using assms(1) unfolding relerr_def h_def by simp_all
  have up: "ulp_hi ^ 4 \<le> 1 + 1 / 2 ^ 50"
    unfolding ulp_hi_def by (simp add: power4_eq_xxxx)
  have dn: "1 - 1 / 2 ^ 50 \<le> ulp_lo ^ 4"
    unfolding ulp_lo_def by (simp add: power4_eq_xxxx)
  have "ulp_hi ^ 4 * v \<le> (1 + 1 / 2 ^ 50) * v" using up assms(2) by (rule mult_right_mono)
  then have hi: "y \<le> (1 + 1 / 2 ^ 50) * v + h" using b(2) by linarith
  have "(1 - 1 / 2 ^ 50) * v \<le> ulp_lo ^ 4 * v" using dn assms(2) by (rule mult_right_mono)
  then have lo: "(1 - 1 / 2 ^ 50) * v - h \<le> y" using b(1) by linarith
  define d where "d = v / 2 ^ 50"
  define c :: real where "c = 1 / 2 ^ 40"
  define c' :: real where "c' = 1 / 2 ^ 44"
  have d: "d \<le> c / 2" unfolding d_def c_def using assms(3) by simp
  have cc: "c' \<le> c / 2" unfolding c_def c'_def by simp
  have h': "h \<le> c'" using h unfolding c'_def .
  have eq: "(1 + 1 / 2 ^ 50) * v = v + d" "(1 - 1 / 2 ^ 50) * v = v - d"
    unfolding d_def by (simp_all add: algebra_simps)
  have h1: "y \<le> v + d + h" using hi unfolding eq(1) .
  have h2: "v - d - h \<le> y" using lo unfolding eq(2) .
  have "\<bar>y - v\<bar> \<le> c" using h1 h2 d cc h' by linarith
  then show ?thesis unfolding c_def .
qed

lemma to_double_0: "to_double 0 = 0"
  by (simp add: to_double_def)

subsection \<open>Aggregate progress\<close>

lemma completedCount_le: "completedCount s \<le> length (jobs s)"
  by (simp add: completedCount_def)

lemma overallProgress_relerr:
  assumes "jobs s \<noteq> []" "0 \<le> activeJobProgress s"
  shows "\<exists>y. overallProgress s = Math_round y
     \<and> relerr 4 1500
          (exact_progress (completedCount s) (activeJobProgress s) (length (jobs s))) y"
proof -
  let ?c = "real (completedCount s)"
  let ?p = "activeJobProgress s"
  let ?t = "real (length (jobs s))"
  let ?a = "double_div ?p 100"
  let ?b = "double_add ?c ?a"
  let ?d = "double_div ?b ?t"
  have t: "1 \<le> ?t" using assms(1) by (cases "jobs s") simp_all
  have p: "0 \<le> ?p / 100" using assms(2) by simp
  have r1: "relerr (Suc 0) (2 * 0 + 1) (?p / 100) ?a"
    unfolding double_div_def using p _ relerr_0 by (rule relerr_to_double) simp
  have na: "0 \<le> ?a" unfolding double_div_def using p by (rule to_double_nonneg)
  have r2: "relerr (Suc 0) (2 * 0 + 1) (?c + ?p / 100) (?c + ?a)"
    using r1 by (intro relerr_add) simp_all
  have n2: "0 \<le> ?c + ?a" using na by simp
  have r3: "relerr (Suc (Suc 0)) (2 * (2 * 0 + 1) + 1) (?c + ?p / 100) ?b"
    unfolding double_add_def using n2 _ r2 by (rule relerr_to_double) simp
  have nb: "0 \<le> ?b" unfolding double_add_def using n2 by (rule to_double_nonneg)
  have r4: "relerr (Suc (Suc 0)) (2 * (2 * 0 + 1) + 1) ((?c + ?p / 100) / ?t) (?b / ?t)"
    using t _ r3 by (rule relerr_div) simp
  have n4: "0 \<le> ?b / ?t" using nb t by simp
  have r5: "relerr (Suc (Suc (Suc 0))) (2 * (2 * (2 * 0 + 1) + 1) + 1)
              ((?c + ?p / 100) / ?t) ?d"
    unfolding double_div_def[of ?b] using n4 _ r4 by (rule relerr_to_double) simp
  have nd: "0 \<le> ?d" unfolding double_div_def[of ?b] using n4 by (rule to_double_nonneg)
  have r6: "relerr (Suc (Suc (Suc 0))) ((2 * (2 * (2 * 0 + 1) + 1) + 1) * 100)
              ((?c + ?p / 100) / ?t * 100) (?d * 100)"
    using r5 by (intro relerr_mult) simp_all
  have n6: "0 \<le> ?d * 100" using nd by simp
  have r7: "relerr (Suc (Suc (Suc (Suc 0)))) (2 * ((2 * (2 * (2 * 0 + 1) + 1) + 1) * 100) + 1)
              ((?c + ?p / 100) / ?t * 100) (double_mul ?d 100)"
    unfolding double_mul_def using n6 _ r6 by (rule relerr_to_double) simp
  have ex: "exact_progress (completedCount s) ?p (length (jobs s)) = (?c + ?p / 100) / ?t * 100"
    by (simp add: exact_progress_def)
  have four: "Suc (Suc (Suc (Suc 0))) = 4" by simp
  have m: "2 * ((2 * (2 * (2 * 0 + 1) + 1) + 1) * 100) + 1 = (1401::real)" by simp
  have r8: "relerr 4 1401 ((?c + ?p / 100) / ?t * 100) (double_mul ?d 100)"
    using r7 unfolding four m .
  have "relerr 4 1500 ((?c + ?p / 100) / ?t * 100) (double_mul ?d 100)"
    using r8 half_denorm_pos unfolding relerr_def by (auto; linarith)
  moreover have op: "overallProgress s = Math_round (double_mul ?d 100)"
    using assms(1) by (simp add: overallProgress_def activeJobProgress_def currentJob_def Let_def)
  ultimately show ?thesis unfolding ex by blast
qed

lemma exact_progress_range:
  assumes "jobs s \<noteq> []" "0 \<le> activeJobProgress s" "activeJobProgress s \<le> 100"
  shows "0 \<le> exact_progress (completedCount s) (activeJobProgress s) (length (jobs s))
       \<and> exact_progress (completedCount s) (activeJobProgress s) (length (jobs s)) \<le> 200"
proof -
  let ?c = "real (completedCount s)"
  let ?p = "activeJobProgress s"
  let ?t = "real (length (jobs s))"
  have t: "1 \<le> ?t" using assms(1) by (cases "jobs s") simp_all
  have c: "?c \<le> ?t" using completedCount_le[of s] by simp
  have tp: "0 < ?t" using t by linarith
  have "?p / 100 \<le> 1" using assms(3) by simp
  then have "?c + ?p / 100 \<le> 2 * ?t" using c t by linarith
  then have "100 * (?c + ?p / 100) \<le> 200 * ?t" by simp
  then have "100 * (?c + ?p / 100) / ?t \<le> 200 * ?t / ?t"
    using tp by (intro divide_right_mono) simp_all
  moreover have "200 * ?t / ?t = 200" using tp by simp
  ultimately have hi: "100 * (?c + ?p / 100) / ?t \<le> 200" by linarith
  have "0 \<le> ?p / 100" using assms(2) by simp
  then have "0 \<le> 100 * (?c + ?p / 100)" by simp
  then have lo: "0 \<le> 100 * (?c + ?p / 100) / ?t" using tp by (intro divide_nonneg_pos)
  from lo hi show ?thesis unfolding exact_progress_def by blast
qed

lemma overallProgress_bounds:
  assumes "jobs s \<noteq> []" "0 \<le> activeJobProgress s" "activeJobProgress s \<le> 100"
  shows "Math_round (exact_progress (completedCount s) (activeJobProgress s) (length (jobs s))
                      - 1 / 2 ^ 40) \<le> overallProgress s
       \<and> overallProgress s
           \<le> Math_round (exact_progress (completedCount s) (activeJobProgress s) (length (jobs s))
                          + 1 / 2 ^ 40)"
proof -
  let ?v = "exact_progress (completedCount s) (activeJobProgress s) (length (jobs s))"
  obtain y where y: "overallProgress s = Math_round y" "relerr 4 1500 ?v y"
    using overallProgress_relerr[OF assms(1,2)] by blast
  define c :: real where "c = 1 / 2 ^ 40"
  have range: "0 \<le> ?v" "?v \<le> 200" using exact_progress_range[OF assms] by simp_all
  have "\<bar>y - ?v\<bar> \<le> c"
    unfolding c_def using y(2) range by (rule relerr_4_close) simp_all
  then have b: "?v - c + 1 / 2 \<le> y + 1 / 2" "y + 1 / 2 \<le> ?v + c + 1 / 2" by linarith+
  have f1: "\<lfloor>?v - c + 1 / 2\<rfloor> \<le> \<lfloor>y + 1 / 2\<rfloor>" using b(1) by (rule floor_mono)
  have f2: "\<lfloor>y + 1 / 2\<rfloor> \<le> \<lfloor>?v + c + 1 / 2\<rfloor>" using b(2) by (rule floor_mono)
  from f1 f2 show ?thesis unfolding y(1) Math_round_def c_def by blast
qed

lemmas double_eval =
  to_double_def quantum_def binade_def pow2_def round_even_def compute_bitlen
  double_add_def double_mul_def double_div_def

lemma percent_0: "progress_percent 0 n = 0"
  by (simp add: progress_percent_def double_div_def double_mul_def to_double_0 Math_round_def)

lemma percent_1_6: "progress_percent (Suc 0) 6 = 17"
  by (simp add: progress_percent_def double_eval Math_round_def)

lemma percent_1_2: "progress_percent (Suc 0) 2 = 50"
  by (simp add: progress_percent_def double_eval Math_round_def)

lemma nineteen:
  "Math_round (double_mul (double_div (double_add 1 (double_div 17 100)) 6) 100) = 19"
  by (simp add: double_eval Math_round_def)

lemma six_started_state:
  "map job_status (jobs (run_ops clock initial_store six_started))
     = [completed, processing, pending, pending, pending, pending]
   \<and> map progress (jobs (run_ops clock initial_store six_started)) = [100, 17, 0, 0, 0, 0]"
  by (simp add: run_ops_def six_started_def six_items_def initial_store_def startBatch_def
        updateJobProgress_def completeJob_def percent_0 percent_1_6 Let_def)

lemma six_started_counts:
  "completedCount (run_ops clock initial_store six_started) = 1
   \<and> activeJobProgress (run_ops clock initial_store six_started) = 17
   \<and> length (jobs (run_ops clock initial_store six_started)) = 6"
  by (simp add: run_ops_def six_started_def six_items_def initial_store_def startBatch_def
        updateJobProgress_def completeJob_def percent_0 percent_1_6 Let_def
        completedCount_def activeJobProgress_def)

lemma six_started_progress: "overallProgress (run_ops clock initial_store six_started) = 19"
proof -
  have ne: "length (jobs (run_ops clock initial_store six_started)) \<noteq> 0"
    using six_started_counts[of clock] by simp
  have cur: "(case currentJob (run_ops clock initial_store six_started) of
               None \<Rightarrow> 0 | Some job \<Rightarrow> progress job) = 17"
    using six_started_counts[of clock] by (simp add: activeJobProgress_def currentJob_def)
  show ?thesis
    unfolding overallProgress_def Let_def cur
    using ne six_started_counts[of clock] nineteen by simp
qed

lemma half_done_counts:
  "completedCount (run_ops clock initial_store half_done) = 1
   \<and> activeJobProgress (run_ops clock initial_store half_done) = 50
   \<and> length (jobs (run_ops clock initial_store half_done)) = 2"
  by (simp add: run_ops_def half_done_def two_items_def initial_store_def startBatch_def
        updateJobProgress_def completeJob_def Let_def completedCount_def activeJobProgress_def)

lemma seventy_five:
  "Math_round (double_mul (double_div (double_add 1 (double_div 50 100)) 2) 100) = 75"
  by (simp add: double_eval Math_round_def)

lemma overallProgress_scenario: "overallProgress (run_ops clock initial_store half_done) = 75"
proof -
  have ne: "length (jobs (run_ops clock initial_store half_done)) \<noteq> 0"
    using half_done_counts[of clock] by simp
  have cur: "(case currentJob (run_ops clock initial_store half_done) of
               None \<Rightarrow> 0 | Some job \<Rightarrow> progress job) = 50"
    using half_done_counts[of clock] by (simp add: activeJobProgress_def currentJob_def)
  show ?thesis
    unfolding overallProgress_def Let_def cur
    using ne half_done_counts[of clock] seventy_five by simp
qed

lemma startBatch_pending:
  "length (jobs (snd (startBatch items s))) = length items
   \<and> (\<forall>job \<in> set (jobs (snd (startBatch items s))). job_status job = pending)
   \<and> overallProgress (snd (startBatch items s)) = 0"
proof -
  let ?js = "jobs (snd (startBatch items s))"
  have p: "\<forall>job \<in> set ?js. job_status job = pending \<and> progress job = 0"
    by (auto simp add: startBatch_def)
  then have f: "filter (\<lambda>job. job_status job = completed) ?js = []"
    by (auto simp add: filter_empty_conv)
  have c: "find (\<lambda>job. job_status job = processing) ?js = None"
    using p by (auto simp add: find_None_iff)
  have o: "overallProgress (snd (startBatch items s)) = 0"
    using f c
    by (simp add: overallProgress_def completedCount_def currentJob_def Math_round_def Let_def
          double_add_def double_mul_def double_div_def to_double_0)
  show ?thesis using p o by (simp add: startBatch_def)
qed

lemma aggregate_is_rounded_exact:
  "aggregate_progress c p t = Math_round (exact_progress c p t)"
  by (simp add: aggregate_progress_def exact_progress_def)

lemma Math_round_mono: "x \<le> y \<Longrightarrow> Math_round x \<le> Math_round y"
  unfolding Math_round_def by (rule floor_mono) simp

text \<open>
  C7, as the code has it. The code computes the aggregate progress in double-precision
  arithmetic, in the order \<open>((completed + current / 100) / total) * 100\<close>, so for a
  batch that is not empty and an active progress between 0 and 100 it is the rounding of a
  number within \<open>2 ^ -40\<close> of \<open>100 * (completedCount + activeJobProgress / 100) / totalJobs\<close>:
  it equals the rounded exact value unless that value lies within \<open>2 ^ -40\<close> of a half,
  where it may be the neighbouring integer. Starting a batch of \<open>k\<close> items gives \<open>k\<close> jobs, all
  \<open>pending\<close>, and progress 0; in a batch of two, with the first item completed and the
  second at progress 50, the progress is 75.
\<close>

theorem overallProgress_up_to_rounding:
  "(jobs s \<noteq> [] \<and> 0 \<le> activeJobProgress s \<and> activeJobProgress s \<le> 100 \<longrightarrow>
      Math_round (exact_progress (completedCount s) (activeJobProgress s) (length (jobs s))
                   - 1 / 2 ^ 40) \<le> overallProgress s
      \<and> overallProgress s
          \<le> Math_round (exact_progress (completedCount s) (activeJobProgress s) (length (jobs s))
                         + 1 / 2 ^ 40)
      \<and> (Math_round (exact_progress (completedCount s) (activeJobProgress s) (length (jobs s))
                       - 1 / 2 ^ 40)
           = Math_round (exact_progress (completedCount s) (activeJobProgress s) (length (jobs s))
                          + 1 / 2 ^ 40)
          \<longrightarrow> overallProgress s
                = aggregate_progress (completedCount s) (activeJobProgress s) (length (jobs s))))
   \<and> length (jobs (snd (startBatch items s0))) = length items
   \<and> (\<forall>job \<in> set (jobs (snd (startBatch items s0))). job_status job = pending)
   \<and> overallProgress (snd (startBatch items s0)) = 0
   \<and> overallProgress (run_ops clock initial_store half_done) = 75"
proof -
  let ?v = "exact_progress (completedCount s) (activeJobProgress s) (length (jobs s))"
  have lo: "Math_round (?v - 1 / 2 ^ 40) \<le> Math_round ?v"
    and hi: "Math_round ?v \<le> Math_round (?v + 1 / 2 ^ 40)"
    by (rule Math_round_mono, simp)+
  have a: "Math_round (?v - 1 / 2 ^ 40) \<le> overallProgress s
      \<and> overallProgress s \<le> Math_round (?v + 1 / 2 ^ 40)
      \<and> (Math_round (?v - 1 / 2 ^ 40) = Math_round (?v + 1 / 2 ^ 40)
          \<longrightarrow> overallProgress s
                = aggregate_progress (completedCount s) (activeJobProgress s) (length (jobs s)))"
    if "jobs s \<noteq> []" "0 \<le> activeJobProgress s" "activeJobProgress s \<le> 100"
    using overallProgress_bounds[OF that] lo hi
    unfolding aggregate_is_rounded_exact by linarith
  show ?thesis
    using a startBatch_pending[of items s0] overallProgress_scenario[of clock] by blast
qed

theorem overallProgress_up_to_rounding_witness:
  "jobs (run_ops int initial_store six_started) \<noteq> []
   \<and> activeJobProgress (run_ops int initial_store six_started) = 17
   \<and> Math_round (exact_progress 1 17 6 - 1 / 2 ^ 40) = 19
   \<and> overallProgress (run_ops int initial_store six_started) = 19
   \<and> Math_round (exact_progress 1 17 6 + 1 / 2 ^ 40) = 20
   \<and> jobs (run_ops int initial_store half_done) \<noteq> []
   \<and> activeJobProgress (run_ops int initial_store half_done) = 50
   \<and> Math_round (exact_progress 1 50 2 - 1 / 2 ^ 40)
       = Math_round (exact_progress 1 50 2 + 1 / 2 ^ 40)
   \<and> overallProgress (run_ops int initial_store half_done) = aggregate_progress 1 50 2
   \<and> aggregate_progress 1 50 2 = 75
   \<and> map job_status (jobs (snd (startBatch two_items initial_store))) = [pending, pending]
   \<and> overallProgress (snd (startBatch two_items initial_store)) = 0"
proof -
  let ?s = "run_ops int initial_store six_started"
  let ?h = "run_ops int initial_store half_done"
  have c: "completedCount ?s = 1 \<and> activeJobProgress ?s = 17 \<and> length (jobs ?s) = 6"
    by (rule six_started_counts)
  then have cs: "jobs ?s \<noteq> [] \<and> 0 \<le> activeJobProgress ?s \<and> activeJobProgress ?s \<le> 100"
    by auto
  have d: "completedCount ?h = 1 \<and> activeJobProgress ?h = 50 \<and> length (jobs ?h) = 2"
    by (rule half_done_counts)
  then have ds: "jobs ?h \<noteq> [] \<and> 0 \<le> activeJobProgress ?h \<and> activeJobProgress ?h \<le> 100"
    by auto
  have r: "Math_round (exact_progress 1 17 6 - 1 / 2 ^ 40) = 19
     \<and> Math_round (exact_progress 1 17 6 + 1 / 2 ^ 40) = 20
     \<and> Math_round (exact_progress 1 50 2 - 1 / 2 ^ 40) = 75
     \<and> Math_round (exact_progress 1 50 2 + 1 / 2 ^ 40) = 75
     \<and> aggregate_progress 1 50 2 = 75"
    by (simp add: exact_progress_def aggregate_progress_def Math_round_def)
  have p: "map job_status (jobs (snd (startBatch two_items initial_store))) = [pending, pending]"
    by (simp add: startBatch_def two_items_def initial_store_def)
  have o: "overallProgress ?s = 19" by (rule six_started_progress)
  show ?thesis
    using overallProgress_up_to_rounding[where s="?s" and items=two_items
        and ?s0.0=initial_store and clock=int]
      overallProgress_up_to_rounding[where s="?h" and items=two_items
        and ?s0.0=initial_store and clock=int] c cs d ds r p o
    by simp
qed

lemma twenty:
  "Math_round (double_div (double_mul 100 (double_add 1 (double_div 17 100))) 6) = 20"
  by (simp add: double_eval Math_round_def)

text \<open>
  C7 as stated fails. With six images, the first done and the second at its first progress
  event, which the root component reports as progress 17, the code's expression evaluates
  to \<open>19.499999999999996\<close> in doubles and \<open>overallProgress\<close> is 19, while
  \<open>round (100 * (1 + 17 / 100) / 6)\<close> is the rounding of \<open>19.5\<close>, which is 20, whether
  the formula is read over the real numbers or evaluated in doubles in the order it is
  written.
\<close>

theorem overallProgress_differs_from_formula:
  "progress_percent 1 6 = 17
   \<and> completedCount (run_ops int initial_store six_started) = 1
   \<and> activeJobProgress (run_ops int initial_store six_started) = 17
   \<and> length (jobs (run_ops int initial_store six_started)) = 6
   \<and> overallProgress (run_ops int initial_store six_started) = 19
   \<and> aggregate_progress 1 17 6 = 20
   \<and> Math_round (double_div (double_mul 100 (double_add 1 (double_div 17 100))) 6) = 20"
proof -
  have "aggregate_progress 1 17 6 = 20"
    by (simp add: aggregate_progress_def Math_round_def)
  then show ?thesis
    using percent_1_6 six_started_counts[of int] six_started_progress[of int] twenty by simp
qed

subsection \<open>The cleanup registry\<close>

lemma cleanup_tracked:
  "cleanup log_error (map tracked fs) w
     = ([], w\<lparr>invoked := invoked w @ rev (map fst fs), logged := logged w @ thrown_by (rev fs)\<rparr>)"
proof (induction fs arbitrary: w rule: rev_induct)
  case Nil
  show ?case by (subst cleanup.simps) (simp add: thrown_by_def)
next
  case (snoc f fs)
  show ?case
    by (subst cleanup.simps)
       (simp add: snoc.IH tracked_def log_error_def thrown_by_def Let_def split: option.splits)
qed

lemma register_all: "foldl register cleanupFns fs = cleanupFns @ fs"
  by (induction fs arbitrary: cleanupFns) (simp_all add: register_def)

text \<open>
  C8. Register any functions, in any number, and call \<open>cleanup\<close>: the functions run in the
  reverse of the order of registration, each registration once, whether or not an earlier one
  throws (what is thrown is logged, in the same order), and the registry is empty afterwards.
  Before \<open>cleanup\<close>, \<open>size\<close> is the number of registrations.
\<close>

theorem cleanup_runs_all_in_reverse:
  "size_registry (foldl register createCleanupRegistry (map tracked fs)) = length fs
   \<and> size_registry (fst (cleanup log_error
         (foldl register createCleanupRegistry (map tracked fs)) w)) = 0
   \<and> invoked (snd (cleanup log_error (foldl register createCleanupRegistry (map tracked fs)) w))
       = invoked w @ rev (map fst fs)
   \<and> logged (snd (cleanup log_error (foldl register createCleanupRegistry (map tracked fs)) w))
       = logged w @ thrown_by (rev fs)"
  by (simp add: register_all createCleanupRegistry_def cleanup_tracked size_registry_def)

subsection \<open>Cancelling a batch\<close>

lemma cancel_jobs_Cons:
  "cancel_jobs clock n (job # rest) h =
     (if job_status job = pending \<or> job_status job = processing
      then (job\<lparr>job_status := cancelled, job_stage := ''Cancelled'',
                completedAt := Some (clock n)\<rparr>
              # fst (cancel_jobs clock (n + 1) rest
                      (\<lparr>hist_id = job_id job, hist_name = job_name job, hist_status = cancelled,
                        duration = elapsed (startedAt job) (clock n),
                        timestamp = clock n, hist_error = None\<rparr> # h)),
            snd (cancel_jobs clock (n + 1) rest
                   (\<lparr>hist_id = job_id job, hist_name = job_name job, hist_status = cancelled,
                     duration = elapsed (startedAt job) (clock n),
                     timestamp = clock n, hist_error = None\<rparr> # h)))
      else (job # fst (cancel_jobs clock n rest h), snd (cancel_jobs clock n rest h)))"
  by (simp split: prod.splits)

lemma cancel_jobs_history:
  "fst (snd (cancel_jobs clock n js h)) = rev (cancelled_entries clock n js) @ h"
  by (induction js arbitrary: n h) (simp_all add: cancel_jobs_Cons del: cancel_jobs.simps(2))

lemma cancel_jobs_status:
  "map job_status (fst (cancel_jobs clock n js h)) = map (\<lambda>job. cancel_status (job_status job)) js"
  by (induction js arbitrary: n h)
     (simp_all add: cancel_jobs_Cons cancel_status_def del: cancel_jobs.simps(2))

lemma cancel_jobs_terminal:
  "i < length js \<Longrightarrow> terminal (job_status (js ! i)) \<Longrightarrow> fst (cancel_jobs clock n js h) ! i = js ! i"
proof (induction js arbitrary: n h i)
  case Nil
  then show ?case by simp
next
  case (Cons job rest)
  show ?case
  proof (cases i)
    case 0
    then show ?thesis using Cons.prems
      by (auto simp add: terminal_def cancel_jobs_Cons simp del: cancel_jobs.simps(2))
  next
    case (Suc k)
    then show ?thesis using Cons.prems Cons.IH[of k]
      by (simp add: cancel_jobs_Cons del: cancel_jobs.simps(2))
  qed
qed

lemma cancelled_entries_ids:
  "map hist_id (cancelled_entries clock n js)
     = map job_id (filter (\<lambda>job. job_status job = pending \<or> job_status job = processing) js)"
  by (induction js arbitrary: n) simp_all

lemma cancelled_entries_status:
  "h \<in> set (cancelled_entries clock n js) \<Longrightarrow> hist_status h = cancelled"
  by (induction js arbitrary: n) (auto split: if_splits)

text \<open>
  C6. \<open>cancel\<close> on a store that holds an abort controller: every job that was
  \<open>pending\<close> or \<open>processing\<close> is \<open>cancelled\<close>, a job in a terminal status is left as
  it was, the history grows at its front by one \<open>cancelled\<close> entry for each job affected,
  the entry of the last such job first, and the controller's signal is aborted.
\<close>

theorem cancel_cancels_live_jobs:
  assumes "abortController s = Some c"
  shows "map job_status (jobs (cancel clock s))
           = map (\<lambda>job. cancel_status (job_status job)) (jobs s)
       \<and> (\<forall>i < length (jobs s). terminal (job_status (jobs s ! i)) \<longrightarrow>
             jobs (cancel clock s) ! i = jobs s ! i)
       \<and> history (cancel clock s)
           = rev (cancelled_entries clock (clock_reads s) (jobs s)) @ history s
       \<and> map hist_id (cancelled_entries clock (clock_reads s) (jobs s))
           = map job_id (filter (\<lambda>job. job_status job = pending \<or> job_status job = processing)
                           (jobs s))
       \<and> (\<forall>h \<in> set (cancelled_entries clock (clock_reads s) (jobs s)). hist_status h = cancelled)
       \<and> signal_aborted (cancel clock s) c"
proof -
  obtain js h n where cj: "cancel_jobs clock (clock_reads s) (jobs s) (history s) = (js, h, n)"
    by (cases "cancel_jobs clock (clock_reads s) (jobs s) (history s)") auto
  have js: "js = fst (cancel_jobs clock (clock_reads s) (jobs s) (history s))"
    and h: "h = fst (snd (cancel_jobs clock (clock_reads s) (jobs s) (history s)))"
    using cj by simp_all
  have c: "jobs (cancel clock s) = js" "history (cancel clock s) = h"
    "signal_aborted (cancel clock s) c"
    using assms cj by (simp_all add: cancel_def signal_aborted_def)
  show ?thesis
    unfolding c(1) c(2) js h
    using c(3) cancel_jobs_status cancel_jobs_history cancel_jobs_terminal cancelled_entries_ids
      cancelled_entries_status
    by blast
qed

theorem cancel_cancels_live_jobs_witness:
  "fst (startBatch two_items initial_store) = 0
   \<and> abortController (snd (startBatch two_items initial_store)) = Some 0
   \<and> \<not> signal_aborted (snd (startBatch two_items initial_store)) 0
   \<and> map job_status (jobs (cancel int (snd (startBatch two_items initial_store))))
       = [cancelled, cancelled]
   \<and> map hist_id (history (cancel int (snd (startBatch two_items initial_store)))) = [''2'', ''1'']
   \<and> map hist_status (history (cancel int (snd (startBatch two_items initial_store))))
       = [cancelled, cancelled]
   \<and> signal_aborted (cancel int (snd (startBatch two_items initial_store))) 0"
proof -
  have S: "snd (startBatch two_items initial_store)
      = \<lparr>jobs = [\<lparr>job_id = ''1'', job_name = ''Test 1'', job_status = pending, progress = 0,
                   job_stage = ''Queued'', job_error = None, startedAt = None,
                   completedAt = None\<rparr>,
                 \<lparr>job_id = ''2'', job_name = ''Test 2'', job_status = pending, progress = 0,
                   job_stage = ''Queued'', job_error = None, startedAt = None,
                   completedAt = None\<rparr>],
         history = [], abortController = Some 0, status_of_store = store_processing,
         aborted_signals = {}, controllers_made = 1, clock_reads = 0\<rparr>"
    by (simp add: startBatch_def two_items_def initial_store_def)
  have a: "abortController (snd (startBatch two_items initial_store)) = Some 0"
    by (simp add: S)
  have b: "fst (startBatch two_items initial_store) = 0
     \<and> \<not> signal_aborted (snd (startBatch two_items initial_store)) 0"
    by (simp add: startBatch_def initial_store_def signal_aborted_def)
  note T = cancel_cancels_live_jobs[OF a, of int, unfolded S]
  have c: "map job_status (jobs (cancel int (snd (startBatch two_items initial_store))))
       = [cancelled, cancelled]
     \<and> history (cancel int (snd (startBatch two_items initial_store)))
       = rev (cancelled_entries int 0
           [\<lparr>job_id = ''1'', job_name = ''Test 1'', job_status = pending, progress = 0,
                   job_stage = ''Queued'', job_error = None, startedAt = None,
                   completedAt = None\<rparr>,
                 \<lparr>job_id = ''2'', job_name = ''Test 2'', job_status = pending, progress = 0,
                   job_stage = ''Queued'', job_error = None, startedAt = None,
                   completedAt = None\<rparr>])
     \<and> signal_aborted (cancel int (snd (startBatch two_items initial_store))) 0"
    unfolding S using T by (simp add: cancel_status_def)
  show ?thesis using a b c by simp
qed

subsection \<open>Completing a cancelled job\<close>

text \<open>
  C2 fails on the code. \<open>cancel\<close> changes only the jobs that are \<open>pending\<close> or
  \<open>processing\<close>, but \<open>completeJob\<close> and \<open>failJob\<close> do not look at the status of the
  job. When the user cancels while the mask of the first image is applied, both jobs are
  \<open>cancelled\<close> and have their entries in the history; the pipeline then yields the first
  image, the root component calls \<open>completeJob\<close>, and the job that was \<open>cancelled\<close> is
  \<open>completed\<close> and has a second entry in the history.
\<close>

theorem cancelled_job_completed_again:
  "map job_status (jobs (run_ops int initial_store cancel_during_apply)) = [cancelled, cancelled]
   \<and> map hist_key (history (run_ops int initial_store cancel_during_apply))
       = [(''2'', cancelled), (''1'', cancelled)]
   \<and> map job_status (jobs (run_ops int initial_store (cancel_during_apply @ yield_after_cancel)))
       = [completed, cancelled]
   \<and> map hist_key (history (run_ops int initial_store (cancel_during_apply @ yield_after_cancel)))
       = [(''1'', completed), (''2'', cancelled), (''1'', cancelled)]"
  by (simp add: run_ops_def cancel_during_apply_def yield_after_cancel_def two_items_def
        initial_store_def startBatch_def updateJobProgress_def completeJob_def cancel_def
        finish_def hist_key_def percent_0 percent_1_2 Let_def)


end
